theory Spec2Isabelle
  imports Complex_Main "HOL-Library.Word" "HOL-Library.Log_Nat"
begin

section \<open>The workload: primality test of pressure.py\<close>

text \<open>
  \<^verbatim>\<open>
  def is_prime(p):
      if p == 0 or p == 1:
          return False
      for i in range(2, (p // 2) + 1, 1):
          if p % i == 0:
              return False
      return True
  \<close>
  Python integers are unbounded, so \<open>p\<close> is an \<open>int\<close>. Python's \<open>//\<close> and \<open>%\<close> on
  integers round towards minus infinity, as \<open>div\<close> and \<open>mod\<close> on \<open>int\<close> do.
\<close>

definition py_range :: "int \<Rightarrow> int \<Rightarrow> int list" where
  "py_range a b = [a..b - 1]"

fun is_prime_loop :: "int \<Rightarrow> int list \<Rightarrow> bool" where
  "is_prime_loop p [] = True"
| "is_prime_loop p (i # rest) = (if p mod i = 0 then False else is_prime_loop p rest)"

definition is_prime :: "int \<Rightarrow> bool" where
  "is_prime p =
     (if p = 0 \<or> p = 1 then False
      else is_prime_loop p (py_range 2 (p div 2 + 1)))"

text \<open>
  The mathematical notion the loop is compared with: a prime number is an integer greater
  than one with no divisor strictly between one and itself.
\<close>

definition prime_number :: "int \<Rightarrow> bool" where
  "prime_number p \<longleftrightarrow> 1 < p \<and> (\<forall>d. 1 < d \<and> d < p \<longrightarrow> \<not> d dvd p)"

section \<open>Python numbers\<close>

text \<open>
  The samplers of \<^verbatim>\<open>llama_power/RunnerConfig.py\<close> compute with Python integers and Python
  floats. A float is an IEEE 754 binary64 value: a finite one is represented by the rational
  number it denotes, next to the two infinities and NaN. The sign of a zero is not
  represented (\<open>-0.0\<close> and \<open>0.0\<close> are both \<open>Fin 0\<close>; they compare equal in Python).
\<close>

datatype fval = Fin rat | PInf | NInf | NaN

datatype pynum = I int | F fval

datatype exn = OverflowError | ZeroDivisionError | ValueError

text \<open>Powers of two with an integer exponent, and the binary exponent \<open>\<lfloor>log\<^sub>2 \<bar>x\<bar>\<rfloor>\<close> of a
  non-zero rational.\<close>

definition pow2 :: "int \<Rightarrow> rat" where
  "pow2 e = 2 powi e"

definition expo :: "rat \<Rightarrow> int" where
  "expo x = (case quotient_of \<bar>x\<bar> of (p, q) \<Rightarrow>
     let e = bitlen p - bitlen q in if pow2 e \<le> \<bar>x\<bar> then e else e - 1)"

text \<open>Rounding to the nearest integer, ties to the even one.\<close>

definition rne :: "rat \<Rightarrow> int" where
  "rne x = (let n = \<lfloor>x\<rfloor>; r = x - of_int n in
     if r < 1 / 2 then n else if 1 / 2 < r then n + 1 else if even n then n else n + 1)"

text \<open>
  Rounding of an exact result to binary64 (round to nearest, ties to even): 53 significant
  bits, the exponent bounded below by the subnormal range, overflow to an infinity.
\<close>

definition fl :: "rat \<Rightarrow> fval" where
  "fl x = (if x = 0 then Fin 0 else
     let s = pow2 (max (expo x) (- 1022) - 52);
         y = of_int (rne (x / s)) * s
     in if pow2 1024 \<le> \<bar>y\<bar> then (if 0 < x then PInf else NInf) else Fin y)"

fun fadd :: "fval \<Rightarrow> fval \<Rightarrow> fval" where
  "fadd (Fin x) (Fin y) = fl (x + y)"
| "fadd NaN _ = NaN"
| "fadd _ NaN = NaN"
| "fadd PInf NInf = NaN"
| "fadd NInf PInf = NaN"
| "fadd PInf _ = PInf"
| "fadd _ PInf = PInf"
| "fadd NInf _ = NInf"
| "fadd _ NInf = NInf"

fun fsub :: "fval \<Rightarrow> fval \<Rightarrow> fval" where
  "fsub (Fin x) (Fin y) = fl (x - y)"
| "fsub NaN _ = NaN"
| "fsub _ NaN = NaN"
| "fsub PInf PInf = NaN"
| "fsub NInf NInf = NaN"
| "fsub PInf _ = PInf"
| "fsub _ PInf = NInf"
| "fsub NInf _ = NInf"
| "fsub _ NInf = PInf"

text \<open>Division by a non-zero divisor; Python raises before dividing by zero.\<close>

fun fdiv :: "fval \<Rightarrow> fval \<Rightarrow> fval" where
  "fdiv (Fin x) (Fin y) = fl (x / y)"
| "fdiv NaN _ = NaN"
| "fdiv _ NaN = NaN"
| "fdiv (Fin x) _ = Fin 0"
| "fdiv PInf (Fin y) = (if 0 < y then PInf else NInf)"
| "fdiv NInf (Fin y) = (if 0 < y then NInf else PInf)"
| "fdiv _ _ = NaN"

text \<open>An integer operand that meets a float is converted first; the conversion raises
  \<^verbatim>\<open>OverflowError\<close> when the integer is too large for a float.\<close>

definition float_of_int :: "int \<Rightarrow> exn + fval" where
  "float_of_int n = (case fl (of_int n) of Fin y \<Rightarrow> Inr (Fin y) | _ \<Rightarrow> Inl OverflowError)"

fun to_float :: "pynum \<Rightarrow> exn + fval" where
  "to_float (I n) = float_of_int n"
| "to_float (F x) = Inr x"

fun py_add :: "pynum \<Rightarrow> pynum \<Rightarrow> exn + pynum" where
  "py_add (I a) (I b) = Inr (I (a + b))"
| "py_add a b =
     (case to_float a of Inl e \<Rightarrow> Inl e | Inr x \<Rightarrow>
      (case to_float b of Inl e \<Rightarrow> Inl e | Inr y \<Rightarrow> Inr (F (fadd x y))))"

fun py_sub :: "pynum \<Rightarrow> pynum \<Rightarrow> exn + pynum" where
  "py_sub (I a) (I b) = Inr (I (a - b))"
| "py_sub a b =
     (case to_float a of Inl e \<Rightarrow> Inl e | Inr x \<Rightarrow>
      (case to_float b of Inl e \<Rightarrow> Inl e | Inr y \<Rightarrow> Inr (F (fsub x y))))"

text \<open>True division \<^verbatim>\<open>a / b\<close>. Two integers give the correctly rounded quotient.\<close>

fun py_truediv :: "pynum \<Rightarrow> pynum \<Rightarrow> exn + pynum" where
  "py_truediv (I a) (I b) =
     (if b = 0 then Inl ZeroDivisionError
      else (case fl (of_int a / of_int b) of
              Fin y \<Rightarrow> Inr (F (Fin y)) | _ \<Rightarrow> Inl OverflowError))"
| "py_truediv a b =
     (case to_float a of Inl e \<Rightarrow> Inl e | Inr x \<Rightarrow>
      (case to_float b of Inl e \<Rightarrow> Inl e | Inr y \<Rightarrow>
         if y = Fin 0 then Inl ZeroDivisionError else Inr (F (fdiv x y))))"

text \<open>
  \<^verbatim>\<open>round(x, ndigits)\<close> with \<open>ndigits \<ge> 0\<close>. An integer is returned as it is. A finite float
  is rounded, from its exact binary value, to the nearest decimal with \<open>ndigits\<close> places
  (ties to even), and that decimal is converted back to the nearest float. Infinities and NaN
  round to themselves. (\<^verbatim>\<open>round\<close> raises \<^verbatim>\<open>OverflowError\<close> when the rounded decimal is too
  large for a float; with \<open>ndigits \<ge> 0\<close> no float rounds to such a decimal.)
\<close>

fun py_round :: "pynum \<Rightarrow> nat \<Rightarrow> pynum" where
  "py_round (I n) ndigits = I n"
| "py_round (F (Fin x)) ndigits = F (fl (of_int (rne (x * 10 ^ ndigits)) / 10 ^ ndigits))"
| "py_round (F x) ndigits = F x"

text \<open>
  \<^verbatim>\<open>sum(xs)\<close> adds from the integer 0, left to right. (CPython 3.12 and later compensate
  the rounding errors of a float sum; the two agree whenever the partial sums are exact.)
\<close>

fun py_sum_from :: "pynum \<Rightarrow> pynum list \<Rightarrow> exn + pynum" where
  "py_sum_from acc [] = Inr acc"
| "py_sum_from acc (x # xs) =
     (case py_add acc x of Inl e \<Rightarrow> Inl e | Inr acc' \<Rightarrow> py_sum_from acc' xs)"

definition py_sum :: "pynum list \<Rightarrow> exn + pynum" where
  "py_sum xs = py_sum_from (I 0) xs"

definition py_len :: "'a list \<Rightarrow> pynum" where
  "py_len xs = I (int (length xs))"

section \<open>The environment of a run\<close>

text \<open>
  The samplers read the clock, the workload process, two files of the powercap interface,
  \<^verbatim>\<open>psutil\<close> and the \<^verbatim>\<open>nvidia-smi\<close> tool. The world fixes what each of them answers at each
  instant; the clock counts milliseconds.
  \<^item> \<open>exit_at\<close>: the instant at which the workload process exits (\<open>None\<close>: it never does);
    \<^verbatim>\<open>process.poll()\<close> is \<^verbatim>\<open>None\<close> before that instant.
  \<^item> \<open>rapl0\<close>, \<open>rapl1\<close>: the files \<^verbatim>\<open>intel-rapl:0/energy_uj\<close> (processor package) and
    \<^verbatim>\<open>intel-rapl:1/energy_uj\<close> (memory). A file is absent (\<open>None\<close>, \<^verbatim>\<open>open\<close> raises
    \<^verbatim>\<open>FileNotFoundError\<close>) or holds the counter the kernel prints, an unsigned 64-bit
    number of microjoules, which \<^verbatim>\<open>int(f.read().strip())\<close> parses.
  \<^item> \<open>cpu_percent\<close>, \<open>mem_percent\<close>: what \<^verbatim>\<open>psutil.cpu_percent(interval=1)\<close> and
    \<^verbatim>\<open>psutil.virtual_memory().percent\<close> return at an instant.
  \<^item> \<open>nvidia_smi\<close>: the outcome of running the tool at an instant, \<open>smi_ms\<close>: one less than
    the milliseconds that one run of the tool takes (a subprocess never takes no time).
  \<^item> \<open>py_float\<close>: the builtin \<^verbatim>\<open>float\<close> on strings (\<open>None\<close>: \<^verbatim>\<open>ValueError\<close>).
\<close>

datatype smi = NotFound | ExitNonZero | Output string

record world =
  exit_at :: "int option"
  rapl0 :: "int \<Rightarrow> 64 word option"
  rapl1 :: "int \<Rightarrow> 64 word option"
  cpu_percent :: "int \<Rightarrow> fval"
  mem_percent :: "int \<Rightarrow> fval"
  nvidia_smi :: "int \<Rightarrow> smi"
  smi_ms :: nat
  py_float :: "string \<Rightarrow> fval option"

text \<open>
  The lines that the samplers print. The source prints Chinese text for the first three:
  the warning of \<^verbatim>\<open>get_cpu_power\<close>, the warning of \<^verbatim>\<open>get_memory_power\<close>, the warning of
  the two counter reads of \<^verbatim>\<open>monitor_cpu_memory\<close>; then the two messages of \<^verbatim>\<open>monitor_gpu\<close>.
\<close>

datatype message =
  CpuPowerUnavailable | MemPowerUnavailable | EnergyUnavailable | SmiNotFound | SmiError

text \<open>The state of the process: the clock, the field \<^verbatim>\<open>self.rapl_error_printed\<close> of the
  one \<^verbatim>\<open>RunnerConfig\<close> instance, and what has been printed so far.\<close>

record config =
  now :: int
  rapl_error_printed :: bool
  stdout :: "message list"

definition init_config :: config where
  "init_config = \<lparr>now = 0, rapl_error_printed = False, stdout = []\<rparr>"

definition sleep :: "int \<Rightarrow> config \<Rightarrow> config" where
  "sleep ms s = s\<lparr>now := now s + ms\<rparr>"

definition print :: "message \<Rightarrow> config \<Rightarrow> config" where
  "print m s = s\<lparr>stdout := stdout s @ [m]\<rparr>"

definition running :: "world \<Rightarrow> config \<Rightarrow> bool" where
  "running w s = (case exit_at w of None \<Rightarrow> True | Some t \<Rightarrow> now s < t)"

section \<open>llama\_power: the energy counter reader\<close>

text \<open>
  \<^verbatim>\<open>
  except FileNotFoundError:
      if not self.rapl_error_printed:
          print(...)
          self.rapl_error_printed = True
  \<close>
  The same handler, with its own message, closes every read of the counters.
\<close>

definition warn_once :: "message \<Rightarrow> config \<Rightarrow> config" where
  "warn_once m s =
     (if \<not> rapl_error_printed s then (print m s)\<lparr>rapl_error_printed := True\<rparr> else s)"

text \<open>
  \<^verbatim>\<open>
  def get_cpu_power(self):
      try:
          with open("/sys/class/powercap/intel-rapl:0/energy_uj", "r") as f:
              energy_start = int(f.read().strip())
          time.sleep(1)
          with open("/sys/class/powercap/intel-rapl:0/energy_uj", "r") as f:
              energy_end = int(f.read().strip())
          energy_diff = energy_end - energy_start
          power_watts = energy_diff / 1e6
          return power_watts
      except FileNotFoundError:
          if not self.rapl_error_printed:
              print(...)
              self.rapl_error_printed = True
          return 0.0
  \<close>
  \<^verbatim>\<open>get_memory_power\<close> is the same function on the file of the memory domain, with its
  own message; \<open>get_power\<close> is their common body.
\<close>

definition get_power ::
  "(int \<Rightarrow> 64 word option) \<Rightarrow> message \<Rightarrow> config \<Rightarrow> exn + (pynum \<times> config)" where
  "get_power file msg s =
     (case file (now s) of
        None \<Rightarrow> Inr (F (Fin 0), warn_once msg s)
      | Some energy_start \<Rightarrow>
          (let s1 = sleep 1000 s in
           case file (now s1) of
             None \<Rightarrow> Inr (F (Fin 0), warn_once msg s1)
           | Some energy_end \<Rightarrow>
               (let energy_diff = I (uint energy_end - uint energy_start) in
                case py_truediv energy_diff (F (Fin 1000000)) of
                  Inl e \<Rightarrow> Inl e
                | Inr power_watts \<Rightarrow> Inr (power_watts, s1))))"

definition get_cpu_power :: "world \<Rightarrow> config \<Rightarrow> exn + (pynum \<times> config)" where
  "get_cpu_power w s = get_power (rapl0 w) CpuPowerUnavailable s"

definition get_memory_power :: "world \<Rightarrow> config \<Rightarrow> exn + (pynum \<times> config)" where
  "get_memory_power w s = get_power (rapl1 w) MemPowerUnavailable s"

section \<open>llama\_power: the sampling loop and the aggregator\<close>

text \<open>
  \<^verbatim>\<open>
  try:
      with open("/sys/class/powercap/intel-rapl:0/energy_uj", "r") as f:
          ..._cpu_energy = int(f.read().strip())
      with open("/sys/class/powercap/intel-rapl:1/energy_uj", "r") as f:
          ..._mem_energy = int(f.read().strip())
  except FileNotFoundError:
  \<close>
  The body of the two \<^verbatim>\<open>try\<close> blocks of \<^verbatim>\<open>monitor_cpu_memory\<close>: both files are read in
  one scope, the processor file first; \<open>None\<close> stands for the exception.
\<close>

definition read_counters :: "world \<Rightarrow> config \<Rightarrow> (pynum \<times> pynum) option" where
  "read_counters w s =
     (case rapl0 w (now s) of
        None \<Rightarrow> None
      | Some cpu_energy \<Rightarrow>
          (case rapl1 w (now s) of
             None \<Rightarrow> None
           | Some mem_energy \<Rightarrow> Some (I (uint cpu_energy), I (uint mem_energy))))"

text \<open>The four sample series that the loop fills.\<close>

record series =
  cpu_usage :: "pynum list"
  memory_usage :: "pynum list"
  cpu_power_usage :: "pynum list"
  mem_power_usage :: "pynum list"

definition no_samples :: series where
  "no_samples = \<lparr>cpu_usage = [], memory_usage = [], cpu_power_usage = [], mem_power_usage = []\<rparr>"

text \<open>
  \<^verbatim>\<open>
  start_time = time.time()
  while self.process.poll() is None and (time.time() - start_time) < 10:
      cpu_usage.append(psutil.cpu_percent(interval=1))
      memory_usage.append(psutil.virtual_memory().percent)
      cpu_power = self.get_cpu_power()
      if cpu_power is not None:
          cpu_power_usage.append(cpu_power)
      mem_power = self.get_memory_power()
      if mem_power is not None:
          mem_power_usage.append(mem_power)
  \<close>
  \<^verbatim>\<open>psutil.cpu_percent(interval=1)\<close> blocks for one second. The two readers never return
  \<^verbatim>\<open>None\<close>.
\<close>

function cpu_memory_loop ::
  "world \<Rightarrow> int \<Rightarrow> config \<Rightarrow> series \<Rightarrow> exn + (series \<times> config)" where
  "cpu_memory_loop w start_time s xs =
     (if running w s \<and> now s - start_time < 10000 then
        (let s1 = sleep 1000 s;
             xs1 = xs\<lparr>cpu_usage := cpu_usage xs @ [F (cpu_percent w (now s1))],
                      memory_usage := memory_usage xs @ [F (mem_percent w (now s1))]\<rparr>
         in case get_cpu_power w s1 of
              Inl e \<Rightarrow> Inl e
            | Inr (cpu_power, s2) \<Rightarrow>
                (case get_memory_power w s2 of
                   Inl e \<Rightarrow> Inl e
                 | Inr (mem_power, s3) \<Rightarrow>
                     cpu_memory_loop w start_time s3
                       (xs1\<lparr>cpu_power_usage := cpu_power_usage xs1 @ [cpu_power],
                            mem_power_usage := mem_power_usage xs1 @ [mem_power]\<rparr>)))
      else Inr (xs, s))"
  by pat_completeness auto

lemma now_warn_once [simp]: "now (warn_once m s) = now s"
  by (simp add: warn_once_def print_def)

lemma now_sleep [simp]: "now (sleep ms s) = now s + ms"
  by (simp add: sleep_def)

lemma get_power_now:
  "get_power file msg s = Inr (v, s') \<Longrightarrow> now s \<le> now s'"
  by (auto simp: get_power_def Let_def split: option.splits sum.splits)

termination cpu_memory_loop
proof (relation "measure (\<lambda>(w, start_time, s, xs). nat (start_time + 10000 - now s))")
  show "wf (measure (\<lambda>(w, start_time, s, xs). nat (start_time + 10000 - now s)))"
    by simp
next
  fix w :: world and start_time :: int and s :: config and xs :: series
    and s1 xs1 cp cpu_power s2 mp mem_power s3
  assume cond: "running w s \<and> now s - start_time < 10000"
    and s1: "s1 = sleep 1000 s"
    and cpu: "get_cpu_power w s1 = Inr cp" "(cpu_power, s2) = cp"
    and mem: "get_memory_power w s2 = Inr mp" "(mem_power, s3) = mp"
  from cpu have "now s1 \<le> now s2"
    by (auto simp: get_cpu_power_def dest: get_power_now)
  moreover from mem have "now s2 \<le> now s3"
    by (auto simp: get_memory_power_def dest: get_power_now)
  ultimately have "now s + 1000 \<le> now s3"
    using s1 by simp
  with cond show "((w, start_time, s3,
      xs1\<lparr>cpu_power_usage := cpu_power_usage xs1 @ [cpu_power],
          mem_power_usage := mem_power_usage xs1 @ [mem_power]\<rparr>), (w, start_time, s, xs))
    \<in> measure (\<lambda>(w, start_time, s, xs). nat (start_time + 10000 - now s))"
    by simp
qed

text \<open>
  \<^verbatim>\<open>round((final_energy - initial_energy) / 1e6, 3)\<close>, the energy of one domain in joules.
\<close>

definition energy_joules :: "pynum \<Rightarrow> pynum \<Rightarrow> exn + pynum" where
  "energy_joules final_energy initial_energy =
     (case py_sub final_energy initial_energy of
        Inl e \<Rightarrow> Inl e
      | Inr diff \<Rightarrow>
          (case py_truediv diff (F (Fin 1000000)) of
             Inl e \<Rightarrow> Inl e
           | Inr joules \<Rightarrow> Inr (py_round joules 3)))"

text \<open>
  \<^verbatim>\<open>round(sum(xs) / len(xs), 3) if xs else dflt\<close>, the reduction of a series of
  \<^verbatim>\<open>monitor_cpu_memory\<close>; a list is true when it is not empty.
\<close>

definition average :: "pynum list \<Rightarrow> pynum \<Rightarrow> exn + pynum" where
  "average xs dflt =
     (if xs \<noteq> [] then
        (case py_sum xs of
           Inl e \<Rightarrow> Inl e
         | Inr sum_xs \<Rightarrow>
             (case py_truediv sum_xs (py_len xs) of
                Inl e \<Rightarrow> Inl e
              | Inr avg \<Rightarrow> Inr (py_round avg 3)))
      else Inr dflt)"

text \<open>The tuple that \<^verbatim>\<open>monitor_cpu_memory\<close> returns, by the names of its components.\<close>

record cpu_memory_metrics =
  avg_cpu :: pynum
  avg_mem :: pynum
  avg_cpu_power :: pynum
  avg_mem_power :: pynum
  cpu_energy_usage :: pynum
  mem_energy_usage :: pynum

text \<open>
  \<^verbatim>\<open>
  def monitor_cpu_memory(self):
      try:
          (read initial_cpu_energy, initial_mem_energy)
      except FileNotFoundError:
          (warn once)
          initial_cpu_energy = 0.0
          initial_mem_energy = 0.0
      (the loop)
      try:
          (read final_cpu_energy, final_mem_energy)
      except FileNotFoundError:
          (warn once)
          final_cpu_energy = initial_cpu_energy
          final_mem_energy = initial_mem_energy
      cpu_energy_usage = round((final_cpu_energy - initial_cpu_energy) / 1e6, 3)
      mem_energy_usage = round((final_mem_energy - initial_mem_energy) / 1e6, 3)
      avg_cpu = round(sum(cpu_usage) / len(cpu_usage), 3) if cpu_usage else 0
      avg_mem = round(sum(memory_usage) / len(memory_usage), 3) if memory_usage else 0
      avg_cpu_power = (round(...) if cpu_power_usage else 0.0)
      avg_mem_power = (round(...) if mem_power_usage else 0.0)
      return (avg_cpu, avg_mem, avg_cpu_power, avg_mem_power,
              cpu_energy_usage, mem_energy_usage)
  \<close>
\<close>

definition initial_counters :: "world \<Rightarrow> config \<Rightarrow> (pynum \<times> pynum) \<times> config" where
  "initial_counters w s =
     (case read_counters w s of
        Some (initial_cpu_energy, initial_mem_energy) \<Rightarrow>
          ((initial_cpu_energy, initial_mem_energy), s)
      | None \<Rightarrow> ((F (Fin 0), F (Fin 0)), warn_once EnergyUnavailable s))"

definition final_counters ::
  "world \<Rightarrow> pynum \<times> pynum \<Rightarrow> config \<Rightarrow> (pynum \<times> pynum) \<times> config" where
  "final_counters w initial s =
     (case read_counters w s of
        Some (final_cpu_energy, final_mem_energy) \<Rightarrow>
          ((final_cpu_energy, final_mem_energy), s)
      | None \<Rightarrow> (initial, warn_once EnergyUnavailable s))"

definition reduce_cpu_memory ::
  "pynum \<times> pynum \<Rightarrow> pynum \<times> pynum \<Rightarrow> series \<Rightarrow> exn + cpu_memory_metrics" where
  "reduce_cpu_memory initial final xs =
     (case energy_joules (fst final) (fst initial) of Inl e \<Rightarrow> Inl e | Inr cpu_energy \<Rightarrow>
      case energy_joules (snd final) (snd initial) of Inl e \<Rightarrow> Inl e | Inr mem_energy \<Rightarrow>
      case average (cpu_usage xs) (I 0) of Inl e \<Rightarrow> Inl e | Inr a_cpu \<Rightarrow>
      case average (memory_usage xs) (I 0) of Inl e \<Rightarrow> Inl e | Inr a_mem \<Rightarrow>
      case average (cpu_power_usage xs) (F (Fin 0)) of Inl e \<Rightarrow> Inl e | Inr a_cpu_power \<Rightarrow>
      case average (mem_power_usage xs) (F (Fin 0)) of Inl e \<Rightarrow> Inl e | Inr a_mem_power \<Rightarrow>
        Inr \<lparr>avg_cpu = a_cpu, avg_mem = a_mem,
             avg_cpu_power = a_cpu_power, avg_mem_power = a_mem_power,
             cpu_energy_usage = cpu_energy, mem_energy_usage = mem_energy\<rparr>)"

definition monitor_cpu_memory :: "world \<Rightarrow> config \<Rightarrow> exn + (cpu_memory_metrics \<times> config)" where
  "monitor_cpu_memory w s =
     (case initial_counters w s of (initial, s0) \<Rightarrow>
      case cpu_memory_loop w (now s0) s0 no_samples of
        Inl e \<Rightarrow> Inl e
      | Inr (xs, s1) \<Rightarrow>
          (case final_counters w initial s1 of (final, s2) \<Rightarrow>
           case reduce_cpu_memory initial final xs of
             Inl e \<Rightarrow> Inl e
           | Inr metrics \<Rightarrow> Inr (metrics, s2)))"

section \<open>llama\_power: the GPU telemetry reader\<close>

text \<open>
  \<^verbatim>\<open>str.strip()\<close>, \<^verbatim>\<open>str.split(sep)\<close> on the text of the tool (ASCII). The white space
  of \<^verbatim>\<open>strip\<close> is the space, the characters 9 to 13 and 28 to 31.
\<close>

definition is_space :: "char \<Rightarrow> bool" where
  "is_space c = (let n = of_char c :: nat in n = 32 \<or> (9 \<le> n \<and> n \<le> 13) \<or> (28 \<le> n \<and> n \<le> 31))"

definition strip :: "string \<Rightarrow> string" where
  "strip txt = rev (dropWhile is_space (rev (dropWhile is_space txt)))"

fun split :: "char \<Rightarrow> string \<Rightarrow> string list" where
  "split sep [] = [[]]"
| "split sep (c # cs) =
     (if c = sep then [] # split sep cs
      else (case split sep cs of
              [] \<Rightarrow> [[c]]
            | part # parts \<Rightarrow> (c # part) # parts))"

text \<open>
  \<^verbatim>\<open>
  for line in gpu_stats.strip().split("\n"):
      power_draw, utilization = line.split(",")
      gpu_power_usage.append(float(power_draw.strip()))
      gpu_utilization.append(float(utilization.strip()))
  \<close>
  Unpacking a list that has not exactly two elements raises \<^verbatim>\<open>ValueError\<close>, and so does
  \<^verbatim>\<open>float\<close> on a text that is no number.
\<close>

fun parse_lines ::
  "(string \<Rightarrow> fval option) \<Rightarrow> string list \<Rightarrow> pynum list \<times> pynum list \<Rightarrow>
     exn + (pynum list \<times> pynum list)" where
  "parse_lines pf [] (gpu_power_usage, gpu_utilization) =
     Inr (gpu_power_usage, gpu_utilization)"
| "parse_lines pf (line # rest) (gpu_power_usage, gpu_utilization) =
     (case split (CHR '','') line of
        [power_draw, utilization] \<Rightarrow>
          (case pf (strip power_draw) of
             None \<Rightarrow> Inl ValueError
           | Some p \<Rightarrow>
               (case pf (strip utilization) of
                  None \<Rightarrow> Inl ValueError
                | Some u \<Rightarrow>
                    parse_lines pf rest (gpu_power_usage @ [F p], gpu_utilization @ [F u])))
      | _ \<Rightarrow> Inl ValueError)"

text \<open>The tuple that \<^verbatim>\<open>monitor_gpu\<close> returns, by the names of its components.\<close>

record gpu_metrics =
  avg_gpu_power :: pynum
  avg_gpu_utilization :: pynum
  gpu_energy_usage :: pynum

text \<open>\<^verbatim>\<open>sum(xs) / len(xs) if xs else 0\<close>, the argument of \<^verbatim>\<open>round\<close> in the two averages
  of \<^verbatim>\<open>monitor_gpu\<close>.\<close>

definition mean_or_zero :: "pynum list \<Rightarrow> exn + pynum" where
  "mean_or_zero xs =
     (if xs \<noteq> [] then
        (case py_sum xs of Inl e \<Rightarrow> Inl e | Inr sum_xs \<Rightarrow> py_truediv sum_xs (py_len xs))
      else Inr (I 0))"

text \<open>
  \<^verbatim>\<open>
  gpu_energy_usage = round(sum(gpu_power_usage) / 1e3, 3)
  avg_gpu_power = round(
      sum(gpu_power_usage) / len(gpu_power_usage) if gpu_power_usage else 0, 3)
  avg_gpu_utilization = round(
      sum(gpu_utilization) / len(gpu_utilization) if gpu_utilization else 0, 3)
  return avg_gpu_power, avg_gpu_utilization, gpu_energy_usage
  \<close>
\<close>

definition reduce_gpu :: "pynum list \<Rightarrow> pynum list \<Rightarrow> exn + gpu_metrics" where
  "reduce_gpu gpu_power_usage gpu_utilization =
     (case py_sum gpu_power_usage of Inl e \<Rightarrow> Inl e | Inr sum_power \<Rightarrow>
      case py_truediv sum_power (F (Fin 1000)) of Inl e \<Rightarrow> Inl e | Inr kilo \<Rightarrow>
      case mean_or_zero gpu_power_usage of Inl e \<Rightarrow> Inl e | Inr mean_power \<Rightarrow>
      case mean_or_zero gpu_utilization of Inl e \<Rightarrow> Inl e | Inr mean_util \<Rightarrow>
        Inr \<lparr>avg_gpu_power = py_round mean_power 3,
             avg_gpu_utilization = py_round mean_util 3,
             gpu_energy_usage = py_round kilo 3\<rparr>)"

definition gpu_zero :: gpu_metrics where
  "gpu_zero = \<lparr>avg_gpu_power = F (Fin 0), avg_gpu_utilization = F (Fin 0),
                gpu_energy_usage = F (Fin 0)\<rparr>"

text \<open>
  \<^verbatim>\<open>
  def monitor_gpu(self):
      gpu_utilization = []
      gpu_power_usage = []
      start_time = time.time()
      while self.process.poll() is None and (time.time() - start_time) < 10:
          try:
              gpu_stats = subprocess.check_output(["nvidia-smi", ...], encoding="utf-8")
              (the loop over the lines)
          except FileNotFoundError:
              print("nvidia-smi command not found. Skipping GPU monitoring.")
              return 0.0, 0.0, 0.0
          except subprocess.CalledProcessError as e:
              print(f"Error occurred while fetching GPU data: {e}")
              return 0.0, 0.0, 0.0
      (the reduction)
  \<close>
  The loop ends in one of three ways: a \<^verbatim>\<open>ValueError\<close> of the parsing, which is not caught
  (\<open>Inl\<close>); a \<^verbatim>\<open>return\<close> from inside the loop (\<open>Returned\<close>); or its condition fails, with
  the two series collected so far (\<open>Collected\<close>).
\<close>

datatype gpu_loop_end = Returned gpu_metrics | Collected "pynum list" "pynum list"

function monitor_gpu_loop ::
  "world \<Rightarrow> int \<Rightarrow> config \<Rightarrow> pynum list \<times> pynum list \<Rightarrow> exn + (gpu_loop_end \<times> config)" where
  "monitor_gpu_loop w start_time s (gpu_power_usage, gpu_utilization) =
     (if running w s \<and> now s - start_time < 10000 then
        (let s1 = sleep (1 + int (smi_ms w)) s in
         case nvidia_smi w (now s) of
           NotFound \<Rightarrow> Inr (Returned gpu_zero, print SmiNotFound s1)
         | ExitNonZero \<Rightarrow> Inr (Returned gpu_zero, print SmiError s1)
         | Output gpu_stats \<Rightarrow>
             (case parse_lines (py_float w) (split (CHR 0x0A) (strip gpu_stats))
                     (gpu_power_usage, gpu_utilization) of
                Inl e \<Rightarrow> Inl e
              | Inr series' \<Rightarrow> monitor_gpu_loop w start_time s1 series'))
      else Inr (Collected gpu_power_usage gpu_utilization, s))"
  by pat_completeness auto
termination
  by (relation "measure (\<lambda>(w, start_time, s, xs). nat (start_time + 10000 - now s))")
    (auto simp: sleep_def)

definition monitor_gpu :: "world \<Rightarrow> config \<Rightarrow> exn + (gpu_metrics \<times> config)" where
  "monitor_gpu w s =
     (case monitor_gpu_loop w (now s) s ([], []) of
        Inl e \<Rightarrow> Inl e
      | Inr (Returned metrics, s1) \<Rightarrow> Inr (metrics, s1)
      | Inr (Collected gpu_power_usage gpu_utilization, s1) \<Rightarrow>
          (case reduce_gpu gpu_power_usage gpu_utilization of
             Inl e \<Rightarrow> Inl e
           | Inr metrics \<Rightarrow> Inr (metrics, s1)))"

text \<open>
  \<^verbatim>\<open>
  def monitor_usage(self):
      self.process = subprocess.Popen(...)
      (...) = self.monitor_cpu_memory()
      avg_gpu_power, avg_gpu_utilization, gpu_energy_usage = self.monitor_gpu()
      return (...)
  \<close>
  The nine values are returned as the two tuples they come from. The process started here
  is the workload of the world.
\<close>

definition monitor_usage ::
  "world \<Rightarrow> config \<Rightarrow> exn + ((cpu_memory_metrics \<times> gpu_metrics) \<times> config)" where
  "monitor_usage w s =
     (case monitor_cpu_memory w s of
        Inl e \<Rightarrow> Inl e
      | Inr (cm, s1) \<Rightarrow>
          (case monitor_gpu w s1 of
             Inl e \<Rightarrow> Inl e
           | Inr (g, s2) \<Rightarrow> Inr ((cm, g), s2)))"

section \<open>powerjoular\_test: the interactive monitoring loop\<close>

text \<open>
  \<^verbatim>\<open>
  def interact(self, context):
      process = psutil.Process(self.target.pid)
      start_time = time.time()
      while self.target.poll() is None:
          cpu_usage = process.cpu_percent(interval=1)
          output.console_log(f"Current CPU usage: {cpu_usage}%")
          if time.time() - start_time > 20:
              self.target.terminate()
              output.console_log("Terminated pressure.py after 20 seconds")
              break
      output.console_log("What to do next?")
  \<close>
  The target is the workload of the world; \<open>cpu_percent\<close> of the world is what
  \<^verbatim>\<open>process.cpu_percent(interval=1)\<close> returns, after blocking for one second.
\<close>

datatype log_line = CurrentCpuUsage fval | TerminatedTarget | WhatToDoNext

record runner =
  clock :: int
  target_terminated :: bool
  console :: "log_line list"

definition console_log :: "log_line \<Rightarrow> runner \<Rightarrow> runner" where
  "console_log l r = r\<lparr>console := console r @ [l]\<rparr>"

definition target_running :: "world \<Rightarrow> runner \<Rightarrow> bool" where
  "target_running w r = (case exit_at w of None \<Rightarrow> True | Some t \<Rightarrow> clock r < t)"

function interact_loop :: "world \<Rightarrow> int \<Rightarrow> runner \<Rightarrow> runner" where
  "interact_loop w start_time r =
     (if target_running w r then
        (let r1 = r\<lparr>clock := clock r + 1000\<rparr>;
             r2 = console_log (CurrentCpuUsage (cpu_percent w (clock r1))) r1
         in if clock r2 - start_time > 20000 then
              console_log TerminatedTarget (r2\<lparr>target_terminated := True\<rparr>)
            else interact_loop w start_time r2)
      else r)"
  by pat_completeness auto
termination
  by (relation "measure (\<lambda>(w, start_time, r). nat (start_time + 21000 - clock r))")
    (auto simp: console_log_def)

definition interact :: "world \<Rightarrow> runner \<Rightarrow> runner" where
  "interact w r = console_log WhatToDoNext (interact_loop w (clock r) r)"

section \<open>powerjoular\_test: the run metrics sink\<close>

text \<open>
  \<^verbatim>\<open>
  def log_run_data_to_csv(self, file_path, run_data):
      if not file_path.exists():
          with open(file_path, mode="w") as file:
              file.write(",".join(run_data.keys()) + "\n")
      with open(file_path, mode="a") as file:
          file.write(",".join(map(str, run_data.values())) + "\n")
  \<close>
  The files are a map from paths to contents. A dictionary keeps its entries in the order
  of insertion: \<open>run_data\<close> is the list of its entries. \<open>str\<close> is the builtin on the values.
\<close>

type_synonym files = "string \<rightharpoonup> string"

fun join :: "string \<Rightarrow> string list \<Rightarrow> string" where
  "join sep [] = []"
| "join sep [x] = x"
| "join sep (x # y # rest) = x @ sep @ join sep (y # rest)"

definition write_file :: "string \<Rightarrow> string \<Rightarrow> files \<Rightarrow> files" where
  "write_file file_path txt fs = fs(file_path \<mapsto> txt)"

definition append_file :: "string \<Rightarrow> string \<Rightarrow> files \<Rightarrow> files" where
  "append_file file_path txt fs =
     (case fs file_path of
        None \<Rightarrow> fs(file_path \<mapsto> txt)
      | Some old \<Rightarrow> fs(file_path \<mapsto> old @ txt))"

definition log_run_data_to_csv ::
  "('v \<Rightarrow> string) \<Rightarrow> string \<Rightarrow> (string \<times> 'v) list \<Rightarrow> files \<Rightarrow> files" where
  "log_run_data_to_csv str file_path run_data fs =
     (let fs1 = (if fs file_path = None
                 then write_file file_path (join '','' (map fst run_data) @ [CHR 0x0A]) fs
                 else fs)
      in append_file file_path (join '','' (map (str \<circ> snd) run_data) @ [CHR 0x0A]) fs1)"

text \<open>
  \<^verbatim>\<open>
  def populate_run_data(self, context):
      df = pd.read_csv(context.run_dir / f"powerjoular.csv-{self.target.pid}.csv")
      avg_cpu_utilization = (round(df["CPU Utilization"].mean(), 3)
                             if "CPU Utilization" in df.columns else 0)
      avg_cpu_power = (round(df["CPU Power"].mean(), 3) if "CPU Power" in df.columns else 0)
      total_cpu_energy = (round(df["CPU Power"].sum(), 3) if "CPU Power" in df.columns else 0)
      (the same three for "GPU Utilization" and "GPU Power")
      run_data = {...}
      self.run_data_list.append(run_data)
      self.log_run_data_to_csv(context.run_dir / "run_table.csv", run_data)
      return run_data
  \<close>
  The data frame \<open>df\<close> that \<^verbatim>\<open>read_csv\<close> returns is the list of its columns, each with its
  values. Of pandas: \<^verbatim>\<open>Series.mean()\<close> and \<^verbatim>\<open>Series.sum()\<close> skip the NaN entries; the mean
  of no value is NaN, the sum of no value is 0. (pandas may add in another order than
  from left to right, and \<^verbatim>\<open>round\<close> on its floats is that of numpy; neither changes the
  result for a column without values.)
\<close>

type_synonym dataframe = "(string \<times> fval list) list"

definition series_sum :: "fval list \<Rightarrow> pynum" where
  "series_sum xs =
     (if xs = [] then I 0 else F (foldl fadd (Fin 0) (filter (\<lambda>x. x \<noteq> NaN) xs)))"

definition series_mean :: "fval list \<Rightarrow> pynum" where
  "series_mean xs =
     (let ys = filter (\<lambda>x. x \<noteq> NaN) xs in
      if ys = [] then F NaN
      else F (fdiv (foldl fadd (Fin 0) ys) (Fin (of_nat (length ys)))))"

definition column_metric ::
  "dataframe \<Rightarrow> string \<Rightarrow> (fval list \<Rightarrow> pynum) \<Rightarrow> pynum" where
  "column_metric df name reduce =
     (case map_of df name of
        Some column \<Rightarrow> py_round (reduce column) 3
      | None \<Rightarrow> I 0)"

definition run_data_of :: "dataframe \<Rightarrow> (string \<times> pynum) list" where
  "run_data_of df =
     [(''avg_cpu_utilization'', column_metric df ''CPU Utilization'' series_mean),
      (''avg_cpu_power'', column_metric df ''CPU Power'' series_mean),
      (''total_cpu_energy'', column_metric df ''CPU Power'' series_sum),
      (''avg_gpu_utilization'', column_metric df ''GPU Utilization'' series_mean),
      (''avg_gpu_power'', column_metric df ''GPU Power'' series_mean),
      (''total_gpu_energy'', column_metric df ''GPU Power'' series_sum)]"

record run_store =
  run_data_list :: "(string \<times> pynum) list list"
  disk :: files

definition populate_run_data ::
  "(pynum \<Rightarrow> string) \<Rightarrow> string \<Rightarrow> dataframe \<Rightarrow> run_store \<Rightarrow>
     (string \<times> pynum) list \<times> run_store" where
  "populate_run_data str run_dir df x =
     (let run_data = run_data_of df in
      (run_data,
       x\<lparr>run_data_list := run_data_list x @ [run_data],
         disk := log_run_data_to_csv str (run_dir @ ''/run_table.csv'') run_data (disk x)\<rparr>))"

text \<open>The two lines that \<^verbatim>\<open>log_run_data_to_csv\<close> writes: the keys, and the values.\<close>

definition csv_header :: "(string \<times> 'v) list \<Rightarrow> string" where
  "csv_header run_data = join '','' (map fst run_data) @ [CHR 0x0A]"

definition csv_row :: "('v \<Rightarrow> string) \<Rightarrow> (string \<times> 'v) list \<Rightarrow> string" where
  "csv_row str run_data = join '','' (map (str \<circ> snd) run_data) @ [CHR 0x0A]"

text \<open>A machine without the powercap interface and without the GPU tool: both counter files
  are absent at every instant, and the workload runs for three seconds.\<close>

definition world_without_rapl :: world where
  "world_without_rapl =
     \<lparr>exit_at = Some 3000, rapl0 = (\<lambda>t. None), rapl1 = (\<lambda>t. None),
      cpu_percent = (\<lambda>t. Fin 50), mem_percent = (\<lambda>t. Fin 25),
      nvidia_smi = (\<lambda>t. NotFound), smi_ms = 0, py_float = (\<lambda>txt. None)\<rparr>"

section \<open>Notions for the properties of the aggregator\<close>

text \<open>A counter value as \<^verbatim>\<open>monitor_cpu_memory\<close> holds it: the integer read from a file, or
  the \<open>0.0\<close> of the handler.\<close>

definition reading :: "pynum \<Rightarrow> bool" where
  "reading v \<longleftrightarrow> v = F (Fin 0) \<or> (\<exists>c :: 64 word. v = I (uint c))"

text \<open>A sample is a float; the loop appends one sample to each series in each round, which
  takes at least one second, so that no series grows beyond ten samples.\<close>

fun is_float :: "pynum \<Rightarrow> bool" where
  "is_float (F x) = True"
| "is_float (I n) = False"

definition series_ok :: "int \<Rightarrow> config \<Rightarrow> series \<Rightarrow> bool" where
  "series_ok start_time s xs \<longleftrightarrow>
     (\<forall>l \<in> {cpu_usage xs, memory_usage xs, cpu_power_usage xs, mem_power_usage xs}.
        (\<forall>x \<in> set l. is_float x) \<and> length l \<le> 10 \<and>
        int (length l) * 1000 \<le> now s - start_time)"

text \<open>The instant at which the sampling loop of \<^verbatim>\<open>monitor_cpu_memory\<close> ends, which is
  the instant of the final read of the counters.\<close>

definition window_end :: "world \<Rightarrow> config \<Rightarrow> int" where
  "window_end w s =
     (case cpu_memory_loop w (now s) (snd (initial_counters w s)) no_samples of
        Inr (xs, s1) \<Rightarrow> now s1
      | Inl e \<Rightarrow> now s)"

text \<open>Two machines on which the processor counter goes from 1,000,000 to 3,500,000
  microjoules during the three seconds of the workload: on the first the file of the memory
  domain disappears after the initial read, on the second it appears only after it.\<close>

definition world_mem_lost :: world where
  "world_mem_lost =
     \<lparr>exit_at = Some 3000,
      rapl0 = (\<lambda>t. Some (if t = 0 then 1000000 else 3500000)),
      rapl1 = (\<lambda>t. if t = 0 then Some 1000000 else None),
      cpu_percent = (\<lambda>t. Fin 50), mem_percent = (\<lambda>t. Fin 25),
      nvidia_smi = (\<lambda>t. NotFound), smi_ms = 0, py_float = (\<lambda>txt. None)\<rparr>"

definition world_mem_late :: world where
  "world_mem_late =
     \<lparr>exit_at = Some 3000,
      rapl0 = (\<lambda>t. Some (if t = 0 then 1000000 else 3500000)),
      rapl1 = (\<lambda>t. if t = 0 then None else Some 3500000),
      cpu_percent = (\<lambda>t. Fin 50), mem_percent = (\<lambda>t. Fin 25),
      nvidia_smi = (\<lambda>t. NotFound), smi_ms = 0, py_float = (\<lambda>txt. None)\<rparr>"

text \<open>
  What ``\<open>delta / 1e6\<close> rounded to 3 decimal places'' means for a delta in microjoules:
  the value is the float nearest to a decimal \<open>K / 1000\<close> with three places, and that decimal
  is a nearest one to the exact quotient, \<open>\<bar>K / 1000 - delta / 10\<^sup>6\<bar> \<le> 0.0005\<close>.
\<close>

definition rounded_joules :: "int \<Rightarrow> pynum \<Rightarrow> bool" where
  "rounded_joules delta v \<longleftrightarrow>
     (\<exists>K y. \<bar>of_int K - (of_int delta :: rat) / 1000\<bar> \<le> 1 / 2 \<and>
        fl (of_int K / 1000) = Fin y \<and> \<bar>y - of_int K / 1000\<bar> \<le> \<bar>of_int K / 1000\<bar> * pow2 (- 53) \<and>
        v = F (Fin y))"

text \<open>Two machines with both counters present, the workload running for three seconds: on
  the first both counters go from 1,000,000 to 3,500,000 microjoules, on the second they
  fall from 3,500,000 to 1,000,000, as after a wrap-around.\<close>

definition world_scenario :: world where
  "world_scenario =
     \<lparr>exit_at = Some 3000,
      rapl0 = (\<lambda>t. Some (if t = 0 then 1000000 else 3500000)),
      rapl1 = (\<lambda>t. Some (if t = 0 then 1000000 else 3500000)),
      cpu_percent = (\<lambda>t. Fin 50), mem_percent = (\<lambda>t. Fin 25),
      nvidia_smi = (\<lambda>t. NotFound), smi_ms = 0, py_float = (\<lambda>txt. None)\<rparr>"

definition world_counter_wrap :: world where
  "world_counter_wrap =
     \<lparr>exit_at = Some 3000,
      rapl0 = (\<lambda>t. Some (if t = 0 then 3500000 else 1000000)),
      rapl1 = (\<lambda>t. Some (if t = 0 then 3500000 else 1000000)),
      cpu_percent = (\<lambda>t. Fin 50), mem_percent = (\<lambda>t. Fin 25),
      nvidia_smi = (\<lambda>t. NotFound), smi_ms = 0, py_float = (\<lambda>txt. None)\<rparr>"

text \<open>A machine on which the workload has exited before the monitoring starts, so that no
  loop collects a sample; and the data frame of a profiler file that holds its header line
  and no row.\<close>

definition world_exited :: world where
  "world_exited =
     \<lparr>exit_at = Some 0,
      rapl0 = (\<lambda>t. Some 1000000), rapl1 = (\<lambda>t. Some 1000000),
      cpu_percent = (\<lambda>t. Fin 50), mem_percent = (\<lambda>t. Fin 25),
      nvidia_smi = (\<lambda>t. Output []), smi_ms = 0, py_float = (\<lambda>txt. None)\<rparr>"

definition df_header_only :: dataframe where
  "df_header_only =
     [(''Date'', []), (''CPU Utilization'', []), (''Total Power'', []),
      (''CPU Power'', []), (''GPU Power'', [])]"

text \<open>A machine on which the workload runs for two milliseconds and the GPU tool answers at
  once: two polls, of 100 watts at 30 percent and of 150 watts at 40 percent. \<open>py_float\<close> is
  \<^verbatim>\<open>float\<close> on the four texts that occur.\<close>

definition world_two_polls :: world where
  "world_two_polls =
     \<lparr>exit_at = Some 2,
      rapl0 = (\<lambda>t. None), rapl1 = (\<lambda>t. None),
      cpu_percent = (\<lambda>t. Fin 50), mem_percent = (\<lambda>t. Fin 25),
      nvidia_smi = (\<lambda>t. Output (if t = 0 then ''100.0, 30\<newline>'' else ''150.0, 40\<newline>'')),
      smi_ms = 0,
      py_float = map_of [(''100.0'', Fin 100), (''150.0'', Fin 150),
                         (''30'', Fin 30), (''40'', Fin 40)]\<rparr>"

text \<open>The state in which \<^verbatim>\<open>interact\<close> is entered.\<close>

definition init_runner :: runner where
  "init_runner = \<lparr>clock = 0, target_terminated = False, console = []\<rparr>"

section \<open>Properties of the workload\<close>

lemma is_prime_loop_iff: "is_prime_loop p ds \<longleftrightarrow> (\<forall>i \<in> set ds. p mod i \<noteq> 0)"
  by (induction ds) auto

lemma set_py_range: "set (py_range a b) = {a..b - 1}"
  by (simp add: py_range_def)

lemma proper_divisor_le_half:
  fixes p d :: int
  assumes "1 < d" "d < p" "d dvd p"
  shows "d \<le> p div 2"
proof -
  from assms(3) obtain k where k: "p = d * k" by (auto simp: dvd_def)
  have "1 < k"
  proof (rule ccontr)
    assume "\<not> 1 < k"
    then have "k \<le> 1" by simp
    with assms(1) have "d * k \<le> d * 1" by (intro mult_left_mono) auto
    with k assms(2) show False by simp
  qed
  then have "2 \<le> k" by simp
  with assms(1) have "d * 2 \<le> d * k" by (intro mult_left_mono) auto
  with k have "2 * d \<le> p" by simp
  then show ?thesis by linarith
qed

lemma half_lt_self:
  fixes p i :: int
  assumes "2 \<le> i" "i \<le> p div 2"
  shows "i < p"
  using assms by linarith

text \<open>
  Claim C10. For every nonnegative integer \<open>p\<close>, \<open>is_prime p\<close> is true exactly when \<open>p\<close> is a
  prime number; it is false for 0 and 1, and for \<open>p \<ge> 2\<close> it is false exactly when some
  integer of the range \<open>[2, p // 2]\<close> divides \<open>p\<close>.
\<close>

theorem is_prime_correct:
  "0 \<le> p \<Longrightarrow>
     (is_prime p \<longleftrightarrow> prime_number p) \<and>
     \<not> is_prime 0 \<and> \<not> is_prime 1 \<and>
     (2 \<le> p \<longrightarrow> (\<not> is_prime p \<longleftrightarrow> (\<exists>i \<in> {2..p div 2}. i dvd p)))"
proof -
  assume nonneg: "0 \<le> p"
  have zero: "\<not> is_prime 0" and one: "\<not> is_prime 1"
    by (simp_all add: is_prime_def)
  have range: "\<not> is_prime p \<longleftrightarrow> (\<exists>i \<in> {2..p div 2}. i dvd p)" if "2 \<le> p"
    using that by (auto simp: is_prime_def is_prime_loop_iff set_py_range mod_eq_0_iff_dvd)
  have spec: "is_prime p \<longleftrightarrow> prime_number p"
  proof (cases "2 \<le> p")
    case True
    have "(\<exists>i \<in> {2..p div 2}. i dvd p) \<longleftrightarrow> (\<exists>d. 1 < d \<and> d < p \<and> d dvd p)"
    proof
      assume "\<exists>i \<in> {2..p div 2}. i dvd p"
      then obtain i where "2 \<le> i" "i \<le> p div 2" "i dvd p" by auto
      then have "1 < i \<and> i < p \<and> i dvd p" using half_lt_self [of i p] by simp
      then show "\<exists>d. 1 < d \<and> d < p \<and> d dvd p" by blast
    next
      assume "\<exists>d. 1 < d \<and> d < p \<and> d dvd p"
      then obtain d where d: "1 < d" "d < p" "d dvd p" by blast
      then have "d \<le> p div 2" by (rule proper_divisor_le_half)
      with d show "\<exists>i \<in> {2..p div 2}. i dvd p" by auto
    qed
    with range [OF True] True show ?thesis
      by (auto simp: prime_number_def)
  next
    case False
    with nonneg have "p = 0 \<or> p = 1" by linarith
    then show ?thesis using zero one by (auto simp: prime_number_def)
  qed
  from zero one range spec show ?thesis by blast
qed

theorem is_prime_correct_witness:
  "(0::int) \<le> 7 \<and> is_prime 7 \<and> prime_number 7 \<and> \<not> is_prime 9 \<and> (\<exists>i \<in> {2..9 div 2}. i dvd (9::int))"
proof -
  have p7: "is_prime 7" by (simp add: is_prime_def py_range_def upto.simps)
  have "prime_number 7" using is_prime_correct [of 7] p7 by simp
  moreover have "\<not> is_prime 9" by (simp add: is_prime_def py_range_def upto.simps)
  moreover have "\<exists>i \<in> {2..9 div 2}. i dvd (9::int)"
    using is_prime_correct [of 9] \<open>\<not> is_prime 9\<close> by simp
  ultimately show ?thesis using p7 by simp
qed

section \<open>Properties of the run metrics sink\<close>

lemma count_join:
  "c \<notin> set sep \<Longrightarrow> \<forall>x \<in> set xs. c \<notin> set x \<Longrightarrow> count_list (join sep xs) c = 0"
  by (induction sep xs rule: join.induct) auto

lemma log_absent:
  "fs p = None \<Longrightarrow>
     log_run_data_to_csv str p d fs = fs(p \<mapsto> csv_header d @ csv_row str d)"
  by (simp add: log_run_data_to_csv_def write_file_def append_file_def csv_header_def csv_row_def)

lemma log_present:
  "fs p = Some old \<Longrightarrow>
     log_run_data_to_csv str p d fs = fs(p \<mapsto> old @ csv_row str d)"
  by (simp add: log_run_data_to_csv_def write_file_def append_file_def csv_row_def)

text \<open>
  Claim C8. When the path is absent, \<^verbatim>\<open>log_run_data_to_csv\<close> creates the file with the header
  line of the comma-joined keys and then one line of the comma-joined values; when the path
  exists it appends exactly that one line to the old content, so that a second call on the
  same path leaves the header as it is and adds one more line. No other file changes, and
  the appended text is one line when no value prints with a line break.
\<close>

theorem log_run_data_to_csv_appends_one_row:
  "(fs p = None \<longrightarrow>
      log_run_data_to_csv str p d fs p = Some (csv_header d @ csv_row str d)) \<and>
   (\<forall>old. fs p = Some old \<longrightarrow>
      log_run_data_to_csv str p d fs p = Some (old @ csv_row str d)) \<and>
   (fs p = None \<longrightarrow>
      log_run_data_to_csv str p d' (log_run_data_to_csv str p d fs) p =
        Some (csv_header d @ csv_row str d @ csv_row str d')) \<and>
   (\<forall>q. q \<noteq> p \<longrightarrow> log_run_data_to_csv str p d fs q = fs q) \<and>
   ((\<forall>v \<in> snd ` set d. CHR 0x0A \<notin> set (str v)) \<longrightarrow>
      count_list (csv_row str d) (CHR 0x0A) = 1)"
proof (intro conjI allI impI)
  assume "fs p = None"
  then show "log_run_data_to_csv str p d fs p = Some (csv_header d @ csv_row str d)"
    by (simp add: log_absent)
next
  fix old assume "fs p = Some old"
  then show "log_run_data_to_csv str p d fs p = Some (old @ csv_row str d)"
    by (simp add: log_present)
next
  assume "fs p = None"
  then show "log_run_data_to_csv str p d' (log_run_data_to_csv str p d fs) p =
      Some (csv_header d @ csv_row str d @ csv_row str d')"
    by (simp add: log_absent log_present [of _ _ "csv_header d @ csv_row str d"])
next
  fix q assume "q \<noteq> p"
  then show "log_run_data_to_csv str p d fs q = fs q"
    by (cases "fs p") (simp_all add: log_absent log_present)
next
  assume "\<forall>v \<in> snd ` set d. CHR 0x0A \<notin> set (str v)"
  then have "count_list (join '','' (map (str \<circ> snd) d)) (CHR 0x0A) = 0"
    by (intro count_join) auto
  then show "count_list (csv_row str d) (CHR 0x0A) = 1"
    by (simp add: csv_row_def)
qed

theorem log_run_data_to_csv_appends_one_row_witness:
  "log_run_data_to_csv id ''t.csv'' [(''a'', ''1''), (''b'', ''2'')] Map.empty ''t.csv''
     = Some ''a,b\<newline>1,2\<newline>'' \<and>
   log_run_data_to_csv id ''t.csv'' [(''a'', ''3''), (''b'', ''4'')]
     (log_run_data_to_csv id ''t.csv'' [(''a'', ''1''), (''b'', ''2'')] Map.empty) ''t.csv''
     = Some ''a,b\<newline>1,2\<newline>3,4\<newline>'' \<and>
   log_run_data_to_csv id ''t.csv'' [(''a'', ''3''), (''b'', ''4'')]
     [''t.csv'' \<mapsto> ''a,b\<newline>1,2\<newline>''] ''t.csv''
     = Some ''a,b\<newline>1,2\<newline>3,4\<newline>'' \<and>
   log_run_data_to_csv id ''t.csv'' [(''a'', ''3''), (''b'', ''4'')] Map.empty ''u.csv'' = None \<and>
   count_list (csv_row id [(''a'', ''3''), (''b'', ''4'')]) (CHR 0x0A) = 1"
proof -
  note first = log_run_data_to_csv_appends_one_row
    [of Map.empty "''t.csv''" id "[(''a'', ''1''), (''b'', ''2'')]" "[(''a'', ''3''), (''b'', ''4'')]"]
  note again = log_run_data_to_csv_appends_one_row
    [of "[''t.csv'' \<mapsto> ''a,b\<newline>1,2\<newline>'']" "''t.csv''" id "[(''a'', ''3''), (''b'', ''4'')]"]
  note other = log_run_data_to_csv_appends_one_row
    [of Map.empty "''t.csv''" id "[(''a'', ''3''), (''b'', ''4'')]"]
  have 1: "log_run_data_to_csv id ''t.csv'' [(''a'', ''1''), (''b'', ''2'')] Map.empty ''t.csv''
     = Some ''a,b\<newline>1,2\<newline>''"
    using first by (simp add: csv_header_def csv_row_def)
  have 2: "log_run_data_to_csv id ''t.csv'' [(''a'', ''3''), (''b'', ''4'')]
     (log_run_data_to_csv id ''t.csv'' [(''a'', ''1''), (''b'', ''2'')] Map.empty) ''t.csv''
     = Some ''a,b\<newline>1,2\<newline>3,4\<newline>''"
    using first by (simp add: csv_header_def csv_row_def)
  have 3: "log_run_data_to_csv id ''t.csv'' [(''a'', ''3''), (''b'', ''4'')]
     [''t.csv'' \<mapsto> ''a,b\<newline>1,2\<newline>''] ''t.csv''
     = Some ''a,b\<newline>1,2\<newline>3,4\<newline>''"
    using again by (simp add: csv_row_def)
  have 4: "log_run_data_to_csv id ''t.csv'' [(''a'', ''3''), (''b'', ''4'')] Map.empty ''u.csv'' = None"
    using other by simp
  have 5: "count_list (csv_row id [(''a'', ''3''), (''b'', ''4'')]) (CHR 0x0A) = 1"
    using other by simp
  from 1 2 3 4 5 show ?thesis by blast
qed

section \<open>Properties of the energy counter reader\<close>



lemma printed_warn_once [simp]: "rapl_error_printed (warn_once msg s)"
  by (simp add: warn_once_def print_def)




section \<open>Properties of the rounding to binary64\<close>

lemma pow2_pos [simp]: "0 < pow2 e"
  by (simp add: pow2_def)

lemma pow2_abs [simp]: "\<bar>pow2 e\<bar> = pow2 e"
  by (simp add: abs_of_pos)

lemma pow2_nonzero [simp]: "pow2 e \<noteq> 0"
  by (simp add: pow2_def)

lemma pow2_nonneg [simp]: "0 \<le> pow2 e"
  by (simp add: pow2_def)

lemma pow2_add: "pow2 (a + b) = pow2 a * pow2 b"
  by (simp add: pow2_def power_int_add)

lemma pow2_diff: "pow2 (a - b) = pow2 a / pow2 b"
  by (simp add: pow2_def power_int_diff)

lemma pow2_mono: "a \<le> b \<Longrightarrow> pow2 a \<le> pow2 b"
  by (simp add: pow2_def power_int_increasing)

lemma pow2_strict_mono: "a < b \<Longrightarrow> pow2 a < pow2 b"
  by (simp add: pow2_def power_int_strict_increasing)

lemma pow2_less_cancel: "pow2 a < pow2 b \<Longrightarrow> a < b"
  using pow2_mono [of b a] by (cases "a < b") auto

lemma pow2_nat: "0 \<le> e \<Longrightarrow> pow2 e = 2 ^ nat e"
  by (simp add: pow2_def power_int_def)

lemma pow2_Suc: "pow2 (e + 1) = 2 * pow2 e"
  by (simp add: pow2_def power_int_add)

lemma bitlen_pow2_bounds:
  assumes "0 < n"
  shows "pow2 (bitlen n - 1) \<le> of_int n" and "of_int n < pow2 (bitlen n)"
proof -
  from assms have b1: "1 \<le> bitlen n" by (simp add: bitlen_alt_def)
  have "((2::int) ^ nat (bitlen n - 1)) \<le> n" "n < (2::int) ^ nat (bitlen n)"
    using bitlen_bounds [OF assms] by auto
  then have "(of_int ((2::int) ^ nat (bitlen n - 1)) :: rat) \<le> of_int n"
    and "(of_int n :: rat) < of_int ((2::int) ^ nat (bitlen n))"
    by (simp_all only: of_int_le_iff of_int_less_iff)
  then show "pow2 (bitlen n - 1) \<le> of_int n" and "of_int n < pow2 (bitlen n)"
    using b1 by (simp_all add: pow2_nat)
qed

lemma expo_bounds:
  assumes "x \<noteq> 0"
  shows "pow2 (expo x) \<le> \<bar>x\<bar>" and "\<bar>x\<bar> < pow2 (expo x + 1)"
proof -
  obtain p q where pq: "quotient_of \<bar>x\<bar> = (p, q)" by force
  then have q: "0 < q" by (rule quotient_of_denom_pos)
  have x: "\<bar>x\<bar> = of_int p / of_int q" using pq by (rule quotient_of_div)
  from assms have "0 < \<bar>x\<bar>" by simp
  with x q have p: "0 < p" by (simp add: zero_less_divide_iff)
  define e where "e = bitlen p - bitlen q"
  note bp = bitlen_pow2_bounds [OF p] and bq = bitlen_pow2_bounds [OF q]
  have qpos: "(0::rat) < of_int q" using q by simp
  have "pow2 (e - 1) * of_int q < pow2 (e - 1) * pow2 (bitlen q)"
    using bq(2) by simp
  also have "\<dots> = pow2 (bitlen p - 1)"
    by (simp add: e_def flip: pow2_add)
  also have "\<dots> \<le> of_int p" by (rule bp(1))
  finally have lo: "pow2 (e - 1) < \<bar>x\<bar>"
    using qpos by (simp add: x pos_less_divide_eq)
  have "of_int p < pow2 (bitlen p)" by (rule bp(2))
  also have "\<dots> = pow2 (e + 1) * pow2 (bitlen q - 1)"
    by (simp add: e_def flip: pow2_add)
  also have "\<dots> \<le> pow2 (e + 1) * of_int q"
    using bq(1) by simp
  finally have hi: "\<bar>x\<bar> < pow2 (e + 1)"
    using qpos by (simp add: x pos_divide_less_eq)
  have ex: "expo x = (if pow2 e \<le> \<bar>x\<bar> then e else e - 1)"
    by (simp add: expo_def pq e_def Let_def)
  show "pow2 (expo x) \<le> \<bar>x\<bar>"
    using lo by (simp add: ex)
  show "\<bar>x\<bar> < pow2 (expo x + 1)"
    using hi by (auto simp: ex)
qed

lemma expo_eqI:
  assumes "pow2 e \<le> \<bar>x\<bar>" and "\<bar>x\<bar> < pow2 (e + 1)"
  shows "expo x = e"
proof -
  from assms(1) pow2_pos [of e] have "0 < \<bar>x\<bar>" by linarith
  then have nz: "x \<noteq> 0" by simp
  note b = expo_bounds [OF nz]
  have "pow2 e < pow2 (expo x + 1)" using assms(1) b(2) by simp
  then have "e < expo x + 1" by (rule pow2_less_cancel)
  moreover have "pow2 (expo x) < pow2 (e + 1)" using assms(2) b(1) by simp
  then have "expo x < e + 1" by (rule pow2_less_cancel)
  ultimately show ?thesis by simp
qed


lemma rne_of_int [simp]: "rne (of_int k) = k"
  by (simp add: rne_def)

lemma rne_error: "\<bar>of_int (rne x) - x\<bar> \<le> 1 / 2"
proof -
  have "of_int \<lfloor>x\<rfloor> \<le> x" "x < of_int \<lfloor>x\<rfloor> + 1" by linarith+
  then show ?thesis
    by (auto simp: rne_def Let_def abs_le_iff)
qed

lemma fl_nonzero:
  assumes "x \<noteq> 0"
  shows "fl x =
     (let s = pow2 (max (expo x) (- 1022) - 52); y = of_int (rne (x / s)) * s
      in if pow2 1024 \<le> \<bar>y\<bar> then (if 0 < x then PInf else NInf) else Fin y)"
  using assms by (simp add: fl_def)

lemma fl_zero [simp]: "fl 0 = Fin 0"
  by (simp add: fl_def)

lemma fl_eval:
  assumes "pow2 e \<le> \<bar>x\<bar>" and "\<bar>x\<bar> < pow2 (e + 1)" and "- 1022 \<le> e"
    and "rne (x / pow2 (e - 52)) = m" and "y = of_int m * pow2 (e - 52)"
    and "\<bar>y\<bar> < pow2 1024"
  shows "fl x = Fin y"
proof -
  have e: "expo x = e" using assms(1,2) by (rule expo_eqI)
  from assms(1) pow2_pos [of e] have "0 < \<bar>x\<bar>" by linarith
  then have "x \<noteq> 0" by simp
  then show ?thesis
    using assms(3-6) by (simp add: fl_nonzero e max_def Let_def)
qed

lemma fl_exact:
  assumes x: "x = of_int m * pow2 e" and m: "\<bar>m\<bar> < 2 ^ 53"
    and e: "- 1074 \<le> e" "e \<le> 971"
  shows "fl x = Fin x"
proof (cases "x = 0")
  case True
  then show ?thesis by simp
next
  case False
  define E where "E = max (expo x) (- 1022) - 52"
  have mr: "\<bar>of_int m :: rat\<bar> < 2 ^ 53"
    using m by (metis of_int_abs of_int_less_numeral_power_cancel_iff)
  have absx: "\<bar>x\<bar> = \<bar>of_int m\<bar> * pow2 e"
    by (simp add: x abs_mult)
  have "\<bar>x\<bar> < 2 ^ 53 * pow2 e"
    unfolding absx using mr by (intro mult_strict_right_mono) simp_all
  also have "\<dots> = pow2 (53 + e)"
    by (simp add: pow2_add) (simp add: pow2_def)
  finally have ub: "\<bar>x\<bar> < pow2 (53 + e)" .
  have "pow2 (expo x) < pow2 (53 + e)"
    using expo_bounds(1) [OF False] ub by simp
  then have "expo x < 53 + e" by (rule pow2_less_cancel)
  with e have Ee: "E \<le> e" by (simp add: E_def max_def)
  then have k: "pow2 (e - E) = of_int (2 ^ nat (e - E))"
    by (simp add: pow2_nat)
  have "x / pow2 E = of_int m * pow2 (e - E)"
    by (simp add: x pow2_diff)
  also have "\<dots> = of_int (m * 2 ^ nat (e - E))"
    by (simp add: k)
  finally have q: "x / pow2 E = of_int (m * 2 ^ nat (e - E))" .
  have "of_int (rne (x / pow2 E)) * pow2 E = (x / pow2 E) * pow2 E"
    by (simp only: q rne_of_int)
  then have y: "of_int (rne (x / pow2 E)) * pow2 E = x"
    by simp
  have "pow2 (53 + e) \<le> pow2 1024" using e by (intro pow2_mono) simp
  with ub have "\<bar>x\<bar> < pow2 1024" by simp
  then show ?thesis
    using False y by (simp add: fl_nonzero Let_def flip: E_def)
qed

lemma fl_error:
  assumes lo: "pow2 (- 1022) \<le> \<bar>x\<bar>" and hi: "\<bar>x\<bar> \<le> pow2 1023"
  obtains y where "fl x = Fin y" and "\<bar>y - x\<bar> \<le> \<bar>x\<bar> * pow2 (- 53)"
proof -
  from lo pow2_pos [of "- 1022"] have "0 < \<bar>x\<bar>" by linarith
  then have nz: "x \<noteq> 0" by simp
  note b = expo_bounds [OF nz]
  have "pow2 (- 1022) < pow2 (expo x + 1)" using lo b(2) by simp
  then have "- 1022 < expo x + 1" by (rule pow2_less_cancel)
  then have E: "max (expo x) (- 1022) - 52 = expo x - 52" by simp
  define s where "s = pow2 (expo x - 52)"
  define y where "y = of_int (rne (x / s)) * s"
  have spos: "0 < s" by (simp add: s_def)
  have "y - x = (of_int (rne (x / s)) - x / s) * s"
    using spos by (simp add: y_def left_diff_distrib)
  then have "\<bar>y - x\<bar> = \<bar>of_int (rne (x / s)) - x / s\<bar> * s"
    using spos by (simp add: abs_mult abs_of_pos)
  also have "\<dots> \<le> 1 / 2 * s"
    using rne_error [of "x / s"] spos by (intro mult_right_mono) simp_all
  also have "\<dots> = pow2 (expo x - 53)"
    using pow2_Suc [of "expo x - 53"] by (simp add: s_def)
  also have "\<dots> = pow2 (expo x) * pow2 (- 53)"
    using pow2_add [of "expo x" "- 53"] by simp
  also have "\<dots> \<le> \<bar>x\<bar> * pow2 (- 53)"
    using b(1) by (intro mult_right_mono) simp_all
  finally have err: "\<bar>y - x\<bar> \<le> \<bar>x\<bar> * pow2 (- 53)" .
  have "\<bar>y\<bar> \<le> \<bar>x\<bar> + \<bar>y - x\<bar>" by simp
  also have "\<dots> \<le> \<bar>x\<bar> + \<bar>x\<bar> * pow2 (- 53)" using err by simp
  also have "\<dots> = \<bar>x\<bar> * (1 + pow2 (- 53))" by (simp add: algebra_simps)
  also have "\<dots> \<le> pow2 1023 * (1 + pow2 (- 53))"
    using hi by (intro mult_right_mono) (simp_all add: less_imp_le add_pos_pos)
  also have "\<dots> < pow2 1023 * 2"
    by (intro mult_strict_left_mono) (simp_all add: pow2_def)
  also have "\<dots> = pow2 1024"
    using pow2_Suc [of 1023] by simp
  finally have "\<bar>y\<bar> < pow2 1024" .
  then have "fl x = Fin y"
    using nz by (simp add: fl_nonzero E Let_def y_def s_def)
  then show ?thesis using err by (rule that)
qed

lemma rne_divide:
  assumes "0 < q"
  shows "rne (of_int p / of_int q) =
     (if 2 * (p mod q) < q then p div q
      else if q < 2 * (p mod q) then p div q + 1
      else if even (p div q) then p div q else p div q + 1)"
proof -
  have fl: "\<lfloor>(of_int p :: rat) / of_int q\<rfloor> = p div q"
    by (rule floor_divide_of_int_eq)
  have "(of_int p :: rat) = of_int (p div q) * of_int q + of_int (p mod q)"
    by (metis div_mult_mod_eq of_int_add of_int_mult)
  then have "(of_int p :: rat) / of_int q = of_int (p div q) + of_int (p mod q) / of_int q"
    using assms by (simp add: field_simps)
  then have r: "(of_int p :: rat) / of_int q - of_int (p div q) = of_int (p mod q) / of_int q"
    by simp
  have lt: "(of_int (p mod q) / of_int q < (1 / 2 :: rat)) = (2 * (p mod q) < q)"
  proof -
    have "(of_int (p mod q) / of_int q < (1 / 2 :: rat)) = ((of_int (2 * (p mod q)) :: rat) < of_int q)"
      using assms by (simp add: field_simps)
    then show ?thesis by (simp only: of_int_less_iff)
  qed
  have gt: "((1 / 2 :: rat) < of_int (p mod q) / of_int q) = (q < 2 * (p mod q))"
  proof -
    have "((1 / 2 :: rat) < of_int (p mod q) / of_int q) = ((of_int q :: rat) < of_int (2 * (p mod q)))"
      using assms by (simp add: field_simps)
    then show ?thesis by (simp only: of_int_less_iff)
  qed
  show ?thesis
    unfolding rne_def Let_def fl r lt gt by simp
qed

lemma rne_numeral_divide [simp]:
  "rne (numeral a / numeral b) =
     (if 2 * (numeral a mod numeral b) < (numeral b :: int) then numeral a div numeral b
      else if (numeral b :: int) < 2 * (numeral a mod numeral b) then numeral a div numeral b + 1
      else if even (numeral a div numeral b :: int) then numeral a div numeral b
      else numeral a div numeral b + 1)"
  using rne_divide [of "numeral b" "numeral a"] by simp

lemma rne_numeral [simp]: "rne (numeral a) = numeral a"
  using rne_of_int [of "numeral a"] by simp


lemma float_of_int_exact: "\<bar>n\<bar> < 2 ^ 53 \<Longrightarrow> float_of_int n = Inr (Fin (of_int n))"
  using fl_exact [of "of_int n" n 0] by (simp add: float_of_int_def pow2_def)

lemma pow2_tiny: "pow2 (- 1022) \<le> 1 / 1000000"
proof -
  have "pow2 (- 1022) \<le> pow2 (- 20)" by (rule pow2_mono) simp
  also have "\<dots> \<le> 1 / 1000000" by (simp add: pow2_def)
  finally show ?thesis .
qed

lemma pow2_huge: "2 ^ 53 \<le> pow2 1023"
proof -
  have "pow2 53 \<le> pow2 1023" by (rule pow2_mono) simp
  then show ?thesis by (simp add: pow2_def)
qed

lemma round3_of_quotient:
  fixes d :: int
  assumes d: "\<bar>d\<bar> < 2 ^ 53"
    and x: "\<bar>x - of_int d / 1000000\<bar> \<le> \<bar>of_int d / 1000000\<bar> * pow2 (- 53)"
  shows "\<bar>of_int (rne (x * 1000)) - (of_int d :: rat) / 1000\<bar> \<le> 1 / 2"
proof -
  define K where "K = rne (x * 1000)"
  have dr: "\<bar>of_int d :: rat\<bar> < 2 ^ 53"
    using d by (metis of_int_abs of_int_less_numeral_power_cancel_iff)
  have eq: "x * 1000 - of_int d / 1000 = (x - of_int d / 1000000) * 1000"
    by simp
  have "\<bar>x * 1000 - of_int d / 1000\<bar> = \<bar>(x - of_int d / 1000000) * 1000\<bar>"
    by (simp only: eq)
  also have "\<dots> = \<bar>x - of_int d / 1000000\<bar> * 1000"
    by (simp only: abs_mult abs_numeral)
  also have "\<dots> \<le> (\<bar>of_int d / 1000000\<bar> * pow2 (- 53)) * 1000"
    using x by (intro mult_right_mono) simp_all
  also have "\<dots> = \<bar>of_int d\<bar> * pow2 (- 53) / 1000"
    by simp
  also have "\<dots> < 2 ^ 53 * pow2 (- 53) / 1000"
    using dr by (intro divide_strict_right_mono mult_strict_right_mono) simp_all
  also have "\<dots> = 1 / 1000"
    by (simp add: pow2_def)
  finally have e1: "\<bar>x * 1000 - of_int d / 1000\<bar> < 1 / 1000" .
  have e2: "\<bar>of_int K - x * 1000\<bar> \<le> 1 / 2"
    unfolding K_def by (rule rne_error)
  have "\<bar>of_int K - (of_int d :: rat) / 1000\<bar>
      \<le> \<bar>of_int K - x * 1000\<bar> + \<bar>x * 1000 - of_int d / 1000\<bar>"
    by simp
  also have "\<dots> < 1 / 2 + 1 / 1000"
    using e1 e2 by simp
  finally have "\<bar>of_int K - (of_int d :: rat) / 1000\<bar> * 1000 < 501"
    by simp
  moreover have scaled: "\<bar>of_int K - (of_int d :: rat) / 1000\<bar> * 1000 = of_int \<bar>1000 * K - d\<bar>"
  proof -
    have eq: "(of_int K - (of_int d :: rat) / 1000) * 1000 = of_int (1000 * K - d)"
      by simp
    have "\<bar>of_int K - (of_int d :: rat) / 1000\<bar> * 1000
        = \<bar>(of_int K - (of_int d :: rat) / 1000) * 1000\<bar>"
      by (simp only: abs_mult abs_numeral)
    also have "\<dots> = \<bar>of_int (1000 * K - d)\<bar>"
      by (simp only: eq)
    finally show ?thesis
      by (simp only: of_int_abs)
  qed
  ultimately have "(of_int \<bar>1000 * K - d\<bar> :: rat) < of_int 501"
    by simp
  then have "\<bar>1000 * K - d\<bar> < 501"
    by (simp only: of_int_less_iff)
  then have "\<bar>1000 * K - d\<bar> \<le> 500" by simp
  then have "(of_int \<bar>1000 * K - d\<bar> :: rat) \<le> of_int 500"
    by (simp only: of_int_le_iff)
  moreover have "\<bar>of_int K - (of_int d :: rat) / 1000\<bar> = of_int \<bar>1000 * K - d\<bar> / 1000"
    using scaled by simp
  ultimately show ?thesis
    by (simp add: K_def)
qed

section \<open>Properties of the GPU telemetry reader\<close>

lemma rne_zero [simp]: "rne 0 = 0"
  using rne_of_int [of 0] by simp

lemma float_of_int_zero [simp]: "float_of_int 0 = Inr (Fin 0)"
  by (simp add: float_of_int_def)

lemma reduce_gpu_empty:
  "reduce_gpu [] [] =
     Inr \<lparr>avg_gpu_power = I 0, avg_gpu_utilization = I 0, gpu_energy_usage = F (Fin 0)\<rparr>"
  by (simp add: reduce_gpu_def py_sum_def mean_or_zero_def)

lemma monitor_gpu_loop_failure:
  assumes "running w s" and "now s - start_time < 10000"
    and "nvidia_smi w (now s) = NotFound \<or> nvidia_smi w (now s) = ExitNonZero"
  shows "\<exists>s'. monitor_gpu_loop w start_time s (ps, us) = Inr (Returned gpu_zero, s') \<and>
     stdout s' = stdout s @ [if nvidia_smi w (now s) = NotFound then SmiNotFound else SmiError]"
  using assms by (auto simp: Let_def print_def sleep_def)

lemma monitor_gpu_loop_over:
  assumes "\<not> (running w s \<and> now s - start_time < 10000)"
  shows "monitor_gpu_loop w start_time s (ps, us) = Inr (Collected ps us, s)"
  using assms by auto

section \<open>No exception escapes the aggregator\<close>

lemma fl_finite:
  assumes hi: "\<bar>x\<bar> \<le> pow2 1023"
  obtains y where "fl x = Fin y" and "\<bar>y - x\<bar> \<le> \<bar>x\<bar> * pow2 (- 53) + pow2 (- 1075)"
proof (cases "x = 0")
  case True
  then show ?thesis using that [of 0] by simp
next
  case nz: False
  note b = expo_bounds [OF nz]
  define E where "E = max (expo x) (- 1022) - 52"
  define s where "s = pow2 E"
  define y where "y = of_int (rne (x / s)) * s"
  have spos: "0 < s" by (simp add: s_def)
  have "y - x = (of_int (rne (x / s)) - x / s) * s"
    using spos by (simp add: y_def left_diff_distrib)
  then have "\<bar>y - x\<bar> = \<bar>of_int (rne (x / s)) - x / s\<bar> * s"
    using spos by (simp add: abs_mult abs_of_pos)
  also have "\<dots> \<le> 1 / 2 * s"
    using rne_error [of "x / s"] spos by (intro mult_right_mono) simp_all
  also have "\<dots> = pow2 (E - 1)"
    using pow2_Suc [of "E - 1"] by (simp add: s_def)
  also have "\<dots> \<le> \<bar>x\<bar> * pow2 (- 53) + pow2 (- 1075)"
  proof (cases "- 1022 \<le> expo x")
    case True
    then have "pow2 (E - 1) = pow2 (expo x) * pow2 (- 53)"
      using pow2_add [of "expo x" "- 53"] by (simp add: E_def max_def)
    also have "\<dots> \<le> \<bar>x\<bar> * pow2 (- 53)"
      using b(1) by (intro mult_right_mono) simp_all
    finally show ?thesis
      using pow2_nonneg [of "- 1075"] by linarith
  next
    case False
    then have "pow2 (E - 1) = pow2 (- 1075)"
      by (simp add: E_def max_def)
    moreover have "0 \<le> \<bar>x\<bar> * pow2 (- 53)" by simp
    ultimately show ?thesis by linarith
  qed
  finally have err: "\<bar>y - x\<bar> \<le> \<bar>x\<bar> * pow2 (- 53) + pow2 (- 1075)" .
  have small: "pow2 (- 53) + pow2 (- 1075) < 1"
  proof -
    have "pow2 (- 1075) \<le> pow2 (- 53)" by (rule pow2_mono) simp
    moreover have "pow2 (- 53) < 1 / 2" by (simp add: pow2_def)
    ultimately show ?thesis by linarith
  qed
  have one: "1 \<le> pow2 1023"
    using pow2_mono [of 0 1023] by (simp add: pow2_def)
  have "\<bar>y\<bar> \<le> \<bar>x\<bar> + \<bar>y - x\<bar>" by simp
  also have "\<dots> \<le> \<bar>x\<bar> + (\<bar>x\<bar> * pow2 (- 53) + pow2 (- 1075))" using err by simp
  also have "\<dots> \<le> pow2 1023 + (pow2 1023 * pow2 (- 53) + pow2 (- 1075))"
    using hi by (intro add_mono mult_right_mono) simp_all
  also have "\<dots> \<le> pow2 1023 + (pow2 1023 * pow2 (- 53) + pow2 1023 * pow2 (- 1075))"
    using one mult_right_mono [of 1 "pow2 1023" "pow2 (- 1075)"] by simp
  also have "\<dots> = pow2 1023 * (1 + (pow2 (- 53) + pow2 (- 1075)))"
    by (simp add: algebra_simps)
  also have "\<dots> < pow2 1023 * 2"
    using small by (intro mult_strict_left_mono) simp_all
  also have "\<dots> = pow2 1024"
    using pow2_Suc [of 1023] by simp
  finally have "\<bar>y\<bar> < pow2 1024" .
  then have "fl x = Fin y"
    using nz by (simp add: fl_nonzero Let_def y_def s_def E_def)
  then show ?thesis using err by (rule that)
qed

lemma fl_finite_bound:
  assumes "\<bar>x\<bar> \<le> pow2 1023"
  obtains y where "fl x = Fin y" and "\<bar>y\<bar> \<le> 2 * \<bar>x\<bar> + 1"
proof -
  from assms obtain y where y: "fl x = Fin y"
    and err: "\<bar>y - x\<bar> \<le> \<bar>x\<bar> * pow2 (- 53) + pow2 (- 1075)"
    by (rule fl_finite)
  have "pow2 (- 53) \<le> pow2 0" "pow2 (- 1075) \<le> pow2 0"
    by (rule pow2_mono, simp)+
  then have p: "pow2 (- 53) \<le> 1" "pow2 (- 1075) \<le> 1" by (simp_all add: pow2_def)
  have "\<bar>x\<bar> * pow2 (- 53) \<le> \<bar>x\<bar> * 1"
    using p(1) by (intro mult_left_mono) simp_all
  with err p(2) have "\<bar>y - x\<bar> \<le> \<bar>x\<bar> + 1" by linarith
  then have "\<bar>y\<bar> \<le> 2 * \<bar>x\<bar> + 1" by linarith
  with y show ?thesis by (rule that)
qed


lemma moderate_le_huge: "\<bar>x\<bar> \<le> 2 ^ 80 \<Longrightarrow> \<bar>x\<bar> \<le> pow2 1023"
proof -
  assume "\<bar>x\<bar> \<le> 2 ^ 80"
  moreover have "pow2 80 \<le> pow2 1023" by (rule pow2_mono) simp
  ultimately show ?thesis by (simp add: pow2_def)
qed

lemma float_of_int_total:
  assumes "\<bar>n\<bar> \<le> 2 ^ 64"
  obtains x where "float_of_int n = Inr (Fin x)" and "\<bar>x\<bar> \<le> 2 ^ 66"
proof -
  have n: "\<bar>of_int n :: rat\<bar> \<le> 2 ^ 64"
    using assms by (metis of_int_abs of_int_le_numeral_power_cancel_iff)
  then have "\<bar>of_int n :: rat\<bar> \<le> pow2 1023" by (intro moderate_le_huge) simp
  then obtain x where x: "fl (of_int n) = Fin x" "\<bar>x\<bar> \<le> 2 * \<bar>of_int n\<bar> + 1"
    by (rule fl_finite_bound)
  from x(2) n have "\<bar>x\<bar> \<le> 2 ^ 66" by simp
  with x(1) show ?thesis by (intro that [of x]) (simp_all add: float_of_int_def)
qed

lemma py_round_total:
  assumes "\<bar>x\<bar> \<le> 2 ^ 70"
  obtains y where "py_round (F (Fin x)) 3 = F (Fin y)" and "\<bar>y\<bar> \<le> 2 ^ 72"
proof -
  define K where "K = rne (x * 10 ^ 3)"
  have "\<bar>of_int K - x * 10 ^ 3\<bar> \<le> 1 / 2"
    unfolding K_def by (rule rne_error)
  then have "\<bar>of_int K / 10 ^ 3 - x\<bar> \<le> 1 / 2000"
    by (simp add: abs_le_iff field_simps)
  then have k: "\<bar>of_int K / 10 ^ 3 :: rat\<bar> \<le> \<bar>x\<bar> + 1" by linarith
  with assms have "\<bar>of_int K / 10 ^ 3 :: rat\<bar> \<le> 2 ^ 80" by simp
  then have "\<bar>of_int K / 10 ^ 3 :: rat\<bar> \<le> pow2 1023" by (rule moderate_le_huge)
  then obtain y where y: "fl (of_int K / 10 ^ 3) = Fin y"
    "\<bar>y\<bar> \<le> 2 * \<bar>of_int K / 10 ^ 3\<bar> + 1"
    by (rule fl_finite_bound)
  from y(2) k assms have "\<bar>y\<bar> \<le> 2 ^ 72" by simp
  with y(1) show ?thesis by (intro that [of y]) (simp_all add: K_def)
qed

lemma joules_total:
  assumes "\<bar>x\<bar> \<le> 2 ^ 68"
  obtains y where "py_truediv (F (Fin x)) (F (Fin 1000000)) = Inr (F (Fin y))"
    and "\<bar>y\<bar> \<le> 2 ^ 70"
proof -
  have "\<bar>x / 1000000\<bar> \<le> \<bar>x\<bar>" by simp
  with assms have q: "\<bar>x / 1000000\<bar> \<le> 2 ^ 68" by linarith
  then have "\<bar>x / 1000000\<bar> \<le> pow2 1023" by (intro moderate_le_huge) simp
  then obtain y where y: "fl (x / 1000000) = Fin y" "\<bar>y\<bar> \<le> 2 * \<bar>x / 1000000\<bar> + 1"
    by (rule fl_finite_bound)
  from y(2) q have "\<bar>y\<bar> \<le> 2 ^ 70" by simp
  with y(1) show ?thesis by (intro that [of y]) simp_all
qed

lemma energy_of_float_total:
  assumes "\<bar>x\<bar> \<le> 2 ^ 68"
  obtains y where
    "(case py_truediv (F (Fin x)) (F (Fin 1000000)) of
        Inl e \<Rightarrow> Inl e | Inr joules \<Rightarrow> Inr (py_round joules 3)) = Inr (F (Fin y))"
proof -
  from assms obtain q where q: "py_truediv (F (Fin x)) (F (Fin 1000000)) = Inr (F (Fin q))"
    "\<bar>q\<bar> \<le> 2 ^ 70" by (rule joules_total)
  from q(2) obtain y where "py_round (F (Fin q)) 3 = F (Fin y)" "\<bar>y\<bar> \<le> 2 ^ 72"
    by (rule py_round_total)
  with q(1) show ?thesis by (intro that [of y]) simp
qed

lemma uint64_bound: "\<bar>uint (a :: 64 word) - uint (b :: 64 word)\<bar> \<le> 2 ^ 64"
proof -
  have "0 \<le> uint a" "uint a < 2 ^ 64" "0 \<le> uint b" "uint b < 2 ^ 64"
    using uint_bounded [of a] uint_bounded [of b] by simp_all
  then show ?thesis by linarith
qed

lemma energy_joules_total:
  assumes "reading a" and "reading b"
  shows "\<exists>y. energy_joules a b = Inr (F (Fin y))"
proof -
  consider (ii) c d :: "64 word" where "a = I (uint c)" "b = I (uint d)"
    | (fi) c :: "64 word" where "a = F (Fin 0)" "b = I (uint c)"
    | (if') c :: "64 word" where "a = I (uint c)" "b = F (Fin 0)"
    | (ff) "a = F (Fin 0)" "b = F (Fin 0)"
    using assms by (auto simp: reading_def)
  then show ?thesis
  proof cases
    case ii
    obtain x where x: "float_of_int (uint c - uint d) = Inr (Fin x)" "\<bar>x\<bar> \<le> 2 ^ 66"
      using uint64_bound [of c d] by (rule float_of_int_total)
    from x(2) have "\<bar>x\<bar> \<le> 2 ^ 68" by simp
    then obtain y where "(case py_truediv (F (Fin x)) (F (Fin 1000000)) of
        Inl e \<Rightarrow> Inl e | Inr joules \<Rightarrow> Inr (py_round joules 3)) = Inr (F (Fin y))"
      by (rule energy_of_float_total)
    then show ?thesis using x(1) by (auto simp: energy_joules_def ii)
  next
    case fi
    have "\<bar>uint c\<bar> \<le> 2 ^ 64" using uint64_bound [of c 0] by simp
    then obtain x where x: "float_of_int (uint c) = Inr (Fin x)" "\<bar>x\<bar> \<le> 2 ^ 66"
      by (rule float_of_int_total)
    have "\<bar>0 - x\<bar> \<le> pow2 1023" using x(2) by (intro moderate_le_huge) simp
    then obtain z where z: "fl (0 - x) = Fin z" "\<bar>z\<bar> \<le> 2 * \<bar>0 - x\<bar> + 1"
      by (rule fl_finite_bound)
    from z(2) x(2) have "\<bar>z\<bar> \<le> 2 ^ 68" by simp
    then obtain y where "(case py_truediv (F (Fin z)) (F (Fin 1000000)) of
        Inl e \<Rightarrow> Inl e | Inr joules \<Rightarrow> Inr (py_round joules 3)) = Inr (F (Fin y))"
      by (rule energy_of_float_total)
    then show ?thesis using x(1) z(1) by (auto simp: energy_joules_def fi)
  next
    case if'
    have "\<bar>uint c\<bar> \<le> 2 ^ 64" using uint64_bound [of c 0] by simp
    then obtain x where x: "float_of_int (uint c) = Inr (Fin x)" "\<bar>x\<bar> \<le> 2 ^ 66"
      by (rule float_of_int_total)
    have "\<bar>x - 0\<bar> \<le> pow2 1023" using x(2) by (intro moderate_le_huge) simp
    then obtain z where z: "fl (x - 0) = Fin z" "\<bar>z\<bar> \<le> 2 * \<bar>x - 0\<bar> + 1"
      by (rule fl_finite_bound)
    from z(2) x(2) have "\<bar>z\<bar> \<le> 2 ^ 68" by simp
    then obtain y where "(case py_truediv (F (Fin z)) (F (Fin 1000000)) of
        Inl e \<Rightarrow> Inl e | Inr joules \<Rightarrow> Inr (py_round joules 3)) = Inr (F (Fin y))"
      by (rule energy_of_float_total)
    then show ?thesis using x(1) z(1) by (auto simp: energy_joules_def if')
  next
    case ff
    then show ?thesis by (simp add: energy_joules_def)
  qed
qed


lemma get_power_total:
  "\<exists>v s'. get_power file msg s = Inr (F v, s') \<and> now s \<le> now s' \<and> now s' \<le> now s + 1000"
proof (cases "file (now s)")
  case None
  then show ?thesis by (simp add: get_power_def)
next
  case (Some a)
  show ?thesis
  proof (cases "file (now s + 1000)")
    case None
    with Some show ?thesis by (simp add: get_power_def Let_def)
  next
    case (Some b)
    obtain x where x: "float_of_int (uint b - uint a) = Inr (Fin x)" "\<bar>x\<bar> \<le> 2 ^ 66"
      using uint64_bound [of b a] by (rule float_of_int_total)
    with Some \<open>file (now s) = Some a\<close> show ?thesis
      by (simp add: get_power_def Let_def)
  qed
qed

lemma py_sum_from_floats:
  assumes "\<forall>x \<in> set xs. is_float x" and "is_float acc \<or> acc = I 0"
  shows "\<exists>r. py_sum_from acc xs = Inr r \<and> (if xs = [] then r = acc else is_float r)"
  using assms
proof (induction xs arbitrary: acc)
  case Nil
  then show ?case by simp
next
  case (Cons x xs)
  from Cons.prems obtain v where x: "x = F v" by (cases x) auto
  from Cons.prems(2) obtain a where a: "py_add acc x = Inr (F a)"
    by (cases acc) (auto simp: x)
  have "\<exists>r. py_sum_from (F a) xs = Inr r \<and> (if xs = [] then r = F a else is_float r)"
    using Cons.prems(1) by (intro Cons.IH) simp_all
  then show ?case using a by (auto split: if_splits)
qed

lemma average_total:
  assumes "\<forall>x \<in> set xs. is_float x" and "length xs \<le> 10"
  shows "\<exists>v. average xs dflt = Inr v \<and> (xs = [] \<longrightarrow> v = dflt)"
proof (cases "xs = []")
  case True
  then show ?thesis by (simp add: average_def)
next
  case False
  then obtain t where t: "py_sum xs = Inr (F t)"
    using py_sum_from_floats [OF assms(1), of "I 0"]
    by (auto simp: py_sum_def) (metis is_float.elims(2))
  have "\<bar>int (length xs)\<bar> < 2 ^ 53" using assms(2) by simp
  then have n: "float_of_int (int (length xs)) = Inr (Fin (of_int (int (length xs))))"
    by (rule float_of_int_exact)
  from False have "(of_int (int (length xs)) :: rat) \<noteq> 0" by simp
  with t n False show ?thesis
    by (simp add: average_def py_len_def)
qed


lemma series_ok_start: "series_ok (now s) s no_samples"
  by (simp add: series_ok_def no_samples_def)

lemma cpu_memory_loop_total:
  assumes "series_ok start_time s xs"
  shows "\<exists>xs' s'. cpu_memory_loop w start_time s xs = Inr (xs', s') \<and>
     series_ok start_time s' xs' \<and> now s \<le> now s' \<and>
     \<not> (running w s' \<and> now s' - start_time < 10000)"
  using assms
proof (induction w start_time s xs rule: cpu_memory_loop.induct)
  case (1 w start_time s xs)
  show ?case
  proof (cases "running w s \<and> now s - start_time < 10000")
    case False
    have "cpu_memory_loop w start_time s xs = Inr (xs, s)"
      by (subst cpu_memory_loop.simps) (simp only: False if_False)
    with False "1.prems" show ?thesis by auto
  next
    case True
    define s1 where "s1 = sleep 1000 s"
    define xs1 where "xs1 = xs\<lparr>cpu_usage := cpu_usage xs @ [F (cpu_percent w (now s1))],
                      memory_usage := memory_usage xs @ [F (mem_percent w (now s1))]\<rparr>"
    obtain cpu_power s2 where cpu: "get_cpu_power w s1 = Inr (F cpu_power, s2)"
      and t2: "now s1 \<le> now s2"
      using get_power_total [of "rapl0 w" CpuPowerUnavailable s1]
      by (auto simp: get_cpu_power_def)
    obtain mem_power s3 where mem: "get_memory_power w s2 = Inr (F mem_power, s3)"
      and t3: "now s2 \<le> now s3"
      using get_power_total [of "rapl1 w" MemPowerUnavailable s2]
      by (auto simp: get_memory_power_def)
    define xs3 where "xs3 = xs1\<lparr>cpu_power_usage := cpu_power_usage xs1 @ [F cpu_power],
                            mem_power_usage := mem_power_usage xs1 @ [F mem_power]\<rparr>"
    have step: "cpu_memory_loop w start_time s xs = cpu_memory_loop w start_time s3 xs3"
      using True cpu mem
      by (subst cpu_memory_loop.simps) (simp add: Let_def s1_def xs1_def xs3_def)
    have t: "now s + 1000 \<le> now s3"
      using t2 t3 by (simp add: s1_def)
    have ok: "series_ok start_time s3 xs3"
      using "1.prems" True t
      by (auto simp: series_ok_def xs3_def xs1_def)
    have "\<exists>xs' s'. cpu_memory_loop w start_time s3 xs3 = Inr (xs', s') \<and>
       series_ok start_time s' xs' \<and> now s3 \<le> now s' \<and>
       \<not> (running w s' \<and> now s' - start_time < 10000)"
      using "1.IH" [OF True s1_def xs1_def cpu refl mem refl] ok
      unfolding xs3_def by blast
    with step t show ?thesis by auto
  qed
qed


lemma now_initial_counters [simp]: "now (snd (initial_counters w s)) = now s"
  by (simp add: initial_counters_def split: option.splits)

lemma reading_initial_counters:
  "reading (fst (fst (initial_counters w s)))" "reading (snd (fst (initial_counters w s)))"
  by (auto simp: initial_counters_def read_counters_def reading_def split: option.splits)

lemma reading_final_counters:
  assumes "reading (fst initial)" and "reading (snd initial)"
  shows "reading (fst (fst (final_counters w initial s)))"
    and "reading (snd (fst (final_counters w initial s)))"
  using assms
  by (auto simp: final_counters_def read_counters_def reading_def split: option.splits)

lemma monitor_cpu_memory_total:
  fixes w s
  defines "initial \<equiv> fst (initial_counters w s)"
  shows "\<exists>xs s1 m. cpu_memory_loop w (now s) (snd (initial_counters w s)) no_samples = Inr (xs, s1) \<and>
     monitor_cpu_memory w s = Inr (m, snd (final_counters w initial s1)) \<and>
     energy_joules (fst (fst (final_counters w initial s1))) (fst initial)
       = Inr (cpu_energy_usage m) \<and>
     energy_joules (snd (fst (final_counters w initial s1))) (snd initial)
       = Inr (mem_energy_usage m) \<and>
     average (cpu_usage xs) (I 0) = Inr (avg_cpu m) \<and>
     average (memory_usage xs) (I 0) = Inr (avg_mem m) \<and>
     average (cpu_power_usage xs) (F (Fin 0)) = Inr (avg_cpu_power m) \<and>
     average (mem_power_usage xs) (F (Fin 0)) = Inr (avg_mem_power m)"
proof -
  define s0 where "s0 = snd (initial_counters w s)"
  have "series_ok (now s0) s0 no_samples" by (rule series_ok_start)
  then obtain xs s1 where loop: "cpu_memory_loop w (now s0) s0 no_samples = Inr (xs, s1)"
    and ok: "series_ok (now s0) s1 xs"
    using cpu_memory_loop_total [of "now s0" s0 no_samples w] by blast
  define final where "final = fst (final_counters w initial s1)"
  have ri: "reading (fst initial)" "reading (snd initial)"
    unfolding initial_def by (rule reading_initial_counters)+
  then have rf: "reading (fst final)" "reading (snd final)"
    unfolding final_def by (rule reading_final_counters)+
  obtain ec where ec: "energy_joules (fst final) (fst initial) = Inr (F (Fin ec))"
    using energy_joules_total [OF rf(1) ri(1)] by blast
  obtain em where em: "energy_joules (snd final) (snd initial) = Inr (F (Fin em))"
    using energy_joules_total [OF rf(2) ri(2)] by blast
  from ok have fl: "\<forall>x \<in> set (cpu_usage xs). is_float x" "length (cpu_usage xs) \<le> 10"
    "\<forall>x \<in> set (memory_usage xs). is_float x" "length (memory_usage xs) \<le> 10"
    "\<forall>x \<in> set (cpu_power_usage xs). is_float x" "length (cpu_power_usage xs) \<le> 10"
    "\<forall>x \<in> set (mem_power_usage xs). is_float x" "length (mem_power_usage xs) \<le> 10"
    by (simp_all add: series_ok_def)
  obtain a1 where a1: "average (cpu_usage xs) (I 0) = Inr a1"
    using average_total [OF fl(1,2)] by blast
  obtain a2 where a2: "average (memory_usage xs) (I 0) = Inr a2"
    using average_total [OF fl(3,4)] by blast
  obtain a3 where a3: "average (cpu_power_usage xs) (F (Fin 0)) = Inr a3"
    using average_total [OF fl(5,6)] by blast
  obtain a4 where a4: "average (mem_power_usage xs) (F (Fin 0)) = Inr a4"
    using average_total [OF fl(7,8)] by blast
  define m where "m = \<lparr>avg_cpu = a1, avg_mem = a2, avg_cpu_power = a3, avg_mem_power = a4,
     cpu_energy_usage = F (Fin ec), mem_energy_usage = F (Fin em)\<rparr>"
  have red: "reduce_cpu_memory initial final xs = Inr m"
    by (simp add: reduce_cpu_memory_def ec em a1 a2 a3 a4 m_def)
  have init: "initial_counters w s = (initial, s0)"
    by (simp add: initial_def s0_def)
  obtain s2 where fin: "final_counters w initial s1 = (final, s2)"
    by (cases "final_counters w initial s1") (simp add: final_def)
  have "monitor_cpu_memory w s = Inr (m, s2)"
    by (simp add: monitor_cpu_memory_def init loop fin red del: cpu_memory_loop.simps)
  then have "monitor_cpu_memory w s = Inr (m, snd (final_counters w initial s1))"
    by (simp add: fin)
  moreover have "cpu_memory_loop w (now s) (snd (initial_counters w s)) no_samples = Inr (xs, s1)"
    using loop by (simp add: s0_def)
  ultimately show ?thesis
    using ec em a1 a2 a3 a4 by (auto simp: m_def final_def)
qed

section \<open>The failure of the GPU tool\<close>

text \<open>
  Claim C7. When the tool is absent (\<open>NotFound\<close>) or exits non-zero (\<open>ExitNonZero\<close>) at the
  poll that \<^verbatim>\<open>monitor_gpu\<close> makes, \<^verbatim>\<open>monitor_gpu\<close> returns normally, with no exception, and
  the three GPU metrics are zero: \<open>0.0, 0.0, 0.0\<close> from the handler when the workload is
  still running, and the reduction of the empty series, \<open>0, 0, 0.0\<close>, when the workload has
  exited already and no poll is made. At any later poll of the loop the failure returns
  \<open>0.0, 0.0, 0.0\<close> as well, whatever was collected before. On a machine where the tool fails
  at every instant, \<^verbatim>\<open>monitor_usage\<close> returns the nine metrics of the run without exception,
  the three of the GPU being zero.
\<close>

theorem gpu_tool_failure_gives_zeros:
  "(nvidia_smi w (now s) = NotFound \<or> nvidia_smi w (now s) = ExitNonZero \<longrightarrow>
      (\<exists>m s'. monitor_gpu w s = Inr (m, s') \<and>
         avg_gpu_power m \<in> {F (Fin 0), I 0} \<and>
         avg_gpu_utilization m \<in> {F (Fin 0), I 0} \<and>
         gpu_energy_usage m = F (Fin 0) \<and>
         (running w s \<longrightarrow> m = gpu_zero))) \<and>
   (running w s \<and> now s - start_time < 10000 \<and>
    (nvidia_smi w (now s) = NotFound \<or> nvidia_smi w (now s) = ExitNonZero) \<longrightarrow>
      (\<exists>s'. monitor_gpu_loop w start_time s (ps, us) = Inr (Returned gpu_zero, s'))) \<and>
   ((\<forall>t. nvidia_smi w t = NotFound \<or> nvidia_smi w t = ExitNonZero) \<longrightarrow>
      (\<exists>cm g s'. monitor_usage w s = Inr ((cm, g), s') \<and>
         avg_gpu_power g \<in> {F (Fin 0), I 0} \<and>
         avg_gpu_utilization g \<in> {F (Fin 0), I 0} \<and>
         gpu_energy_usage g = F (Fin 0)))"
proof -
  have gpu: "\<exists>m s'. monitor_gpu w s = Inr (m, s') \<and>
         avg_gpu_power m \<in> {F (Fin 0), I 0} \<and>
         avg_gpu_utilization m \<in> {F (Fin 0), I 0} \<and>
         gpu_energy_usage m = F (Fin 0) \<and>
         (running w s \<longrightarrow> m = gpu_zero)"
    if fails: "nvidia_smi w (now s) = NotFound \<or> nvidia_smi w (now s) = ExitNonZero" for s
  proof (cases "running w s")
    case True
    then obtain s' where "monitor_gpu_loop w (now s) s ([], []) = Inr (Returned gpu_zero, s')"
      using monitor_gpu_loop_failure [of w s "now s" "[]" "[]"] fails by auto
    then show ?thesis
      by (simp add: monitor_gpu_def gpu_zero_def del: monitor_gpu_loop.simps)
  next
    case False
    then have "monitor_gpu_loop w (now s) s ([], []) = Inr (Collected [] [], s)"
      by (intro monitor_gpu_loop_over) simp
    then show ?thesis
      using False by (simp add: monitor_gpu_def reduce_gpu_empty del: monitor_gpu_loop.simps)
  qed
  have loop: "\<exists>s'. monitor_gpu_loop w start_time s (ps, us) = Inr (Returned gpu_zero, s')"
    if "running w s \<and> now s - start_time < 10000 \<and>
      (nvidia_smi w (now s) = NotFound \<or> nvidia_smi w (now s) = ExitNonZero)"
    using that monitor_gpu_loop_failure [of w s start_time ps us] by blast
  have usage: "\<exists>cm g s'. monitor_usage w s = Inr ((cm, g), s') \<and>
         avg_gpu_power g \<in> {F (Fin 0), I 0} \<and>
         avg_gpu_utilization g \<in> {F (Fin 0), I 0} \<and>
         gpu_energy_usage g = F (Fin 0)"
    if always: "\<forall>t. nvidia_smi w t = NotFound \<or> nvidia_smi w t = ExitNonZero"
  proof -
    obtain cm s1 where cm: "monitor_cpu_memory w s = Inr (cm, s1)"
      using monitor_cpu_memory_total [of w s] by blast
    from always have "nvidia_smi w (now s1) = NotFound \<or> nvidia_smi w (now s1) = ExitNonZero"
      by blast
    then obtain g s' where "monitor_gpu w s1 = Inr (g, s')"
      "avg_gpu_power g \<in> {F (Fin 0), I 0}" "avg_gpu_utilization g \<in> {F (Fin 0), I 0}"
      "gpu_energy_usage g = F (Fin 0)"
      using gpu [of s1] by blast
    with cm show ?thesis
      by (simp add: monitor_usage_def)
  qed
  from gpu [of s] loop usage show ?thesis by blast
qed

theorem gpu_tool_failure_gives_zeros_witness:
  "nvidia_smi world_without_rapl (now init_config) = NotFound \<and>
   running world_without_rapl init_config \<and> now init_config - 0 < 10000 \<and>
   (\<forall>t. nvidia_smi world_without_rapl t = NotFound) \<and>
   (\<exists>s'. monitor_gpu world_without_rapl init_config = Inr (gpu_zero, s')) \<and>
   (\<exists>s'. monitor_gpu_loop world_without_rapl 0 init_config ([F (Fin 100)], [F (Fin 30)]) =
      Inr (Returned gpu_zero, s')) \<and>
   (\<exists>cm g s'. monitor_usage world_without_rapl init_config = Inr ((cm, g), s') \<and>
      gpu_energy_usage g = F (Fin 0))"
proof -
  have a: "nvidia_smi world_without_rapl (now init_config) = NotFound"
    and b: "running world_without_rapl init_config" and c: "now init_config - 0 < 10000"
    and d: "\<forall>t. nvidia_smi world_without_rapl t = NotFound"
    by (simp_all add: world_without_rapl_def init_config_def running_def)
  note t = gpu_tool_failure_gives_zeros
    [of world_without_rapl init_config 0 "[F (Fin 100)]" "[F (Fin 30)]"]
  from t a b have 1: "\<exists>s'. monitor_gpu world_without_rapl init_config = Inr (gpu_zero, s')"
    by auto
  from t a b c
  have 2: "\<exists>s'. monitor_gpu_loop world_without_rapl 0 init_config ([F (Fin 100)], [F (Fin 30)]) =
      Inr (Returned gpu_zero, s')"
    by blast
  from t d have 3: "\<exists>cm g s'. monitor_usage world_without_rapl init_config = Inr ((cm, g), s') \<and>
      gpu_energy_usage g = F (Fin 0)"
    by blast
  from a b c d 1 2 3 show ?thesis by blast
qed

section \<open>The energy metrics of the aggregator\<close>

lemma fl_of_int: "\<bar>n\<bar> < 2 ^ 53 \<Longrightarrow> fl (of_int n) = Fin (of_int n)"
  using fl_exact [of "of_int n" n 0] by (simp add: pow2_def)

lemma fl_numeral [simp]: "(numeral k :: int) < 2 ^ 53 \<Longrightarrow> fl (numeral k) = Fin (numeral k)"
  using fl_of_int [of "numeral k"] by simp

lemma float_of_int_numeral [simp]:
  "(numeral k :: int) < 2 ^ 53 \<Longrightarrow> float_of_int (numeral k) = Inr (Fin (numeral k))"
  using float_of_int_exact [of "numeral k"] by simp

lemma window_end_mem_lost: "window_end world_mem_lost init_config = 4000"
  by (simp add: window_end_def world_mem_lost_def init_config_def initial_counters_def
      read_counters_def no_samples_def running_def get_cpu_power_def get_memory_power_def
      get_power_def sleep_def Let_def warn_once_def print_def)

lemma window_end_mem_late: "window_end world_mem_late init_config = 3000"
  by (simp add: window_end_def world_mem_late_def init_config_def initial_counters_def
      read_counters_def no_samples_def running_def get_cpu_power_def get_memory_power_def
      get_power_def sleep_def Let_def warn_once_def print_def)


lemma energy_joules_same:
  assumes "reading v"
  shows "energy_joules v v = Inr (F (Fin 0))"
  using assms by (auto simp: reading_def energy_joules_def)

lemma read_counters_now: "now s = now s' \<Longrightarrow> read_counters w s = read_counters w s'"
  by (simp add: read_counters_def split: option.splits)

lemma monitor_cpu_memory_energy:
  fixes w s
  defines "initial \<equiv> fst (initial_counters w s)"
  defines "final \<equiv> (case read_counters w (s\<lparr>now := window_end w s\<rparr>) of
                       Some p \<Rightarrow> p | None \<Rightarrow> initial)"
  shows "\<exists>m s'. monitor_cpu_memory w s = Inr (m, s') \<and>
     energy_joules (fst final) (fst initial) = Inr (cpu_energy_usage m) \<and>
     energy_joules (snd final) (snd initial) = Inr (mem_energy_usage m)"
proof -
  obtain xs s1 m
    where loop: "cpu_memory_loop w (now s) (snd (initial_counters w s)) no_samples = Inr (xs, s1)"
      and mon: "monitor_cpu_memory w s = Inr (m, snd (final_counters w initial s1))"
      and ec: "energy_joules (fst (fst (final_counters w initial s1))) (fst initial)
         = Inr (cpu_energy_usage m)"
      and em: "energy_joules (snd (fst (final_counters w initial s1))) (snd initial)
         = Inr (mem_energy_usage m)"
    using monitor_cpu_memory_total [of w s] unfolding initial_def by blast
  have we: "window_end w s = now s1"
    by (simp add: window_end_def loop del: cpu_memory_loop.simps)
  have "read_counters w (s\<lparr>now := window_end w s\<rparr>) = read_counters w s1"
    by (rule read_counters_now) (simp add: we)
  then have "fst (final_counters w initial s1) = final"
    by (simp add: final_counters_def final_def split: option.splits)
  with mon ec em show ?thesis by auto
qed

text \<open>
  Claim C9. The two domains are read in one exception scope, at the start and at the end.
  When the file of the memory domain is missing at the final read, the handler sets both
  final values to the initial ones and the energy of the processor is reported as \<open>0.0\<close>,
  whatever the processor file holds. When the file of the memory domain is missing at the
  initial read and both files are present at the final read, the handler has set both
  initial values to \<open>0.0\<close> and the energy of the processor is
  \<^verbatim>\<open>round((final_cpu_energy - 0.0) / 1e6, 3)\<close>, the final counter itself, whatever the
  processor file held at the start.
\<close>

theorem single_scope_corrupts_cpu_energy:
  "(rapl1 w (window_end w s) = None \<longrightarrow>
      (\<exists>m s'. monitor_cpu_memory w s = Inr (m, s') \<and>
         cpu_energy_usage m = F (Fin 0) \<and> mem_energy_usage m = F (Fin 0))) \<and>
   (rapl1 w (now s) = None \<and>
    rapl0 w (window_end w s) = Some c1 \<and> rapl1 w (window_end w s) = Some m1 \<longrightarrow>
      (\<exists>m s'. monitor_cpu_memory w s = Inr (m, s') \<and>
         energy_joules (I (uint c1)) (F (Fin 0)) = Inr (cpu_energy_usage m) \<and>
         energy_joules (I (uint m1)) (F (Fin 0)) = Inr (mem_energy_usage m)))"
proof (intro conjI impI)
  define initial where "initial = fst (initial_counters w s)"
  define final where "final = (case read_counters w (s\<lparr>now := window_end w s\<rparr>) of
                       Some p \<Rightarrow> p | None \<Rightarrow> initial)"
  note energy = monitor_cpu_memory_energy [of w s, folded initial_def, folded final_def]
  {
    assume "rapl1 w (window_end w s) = None"
    then have "final = initial"
      by (simp add: final_def read_counters_def split: option.splits)
    moreover have "reading (fst initial)" "reading (snd initial)"
      unfolding initial_def by (rule reading_initial_counters)+
    ultimately show "\<exists>m s'. monitor_cpu_memory w s = Inr (m, s') \<and>
         cpu_energy_usage m = F (Fin 0) \<and> mem_energy_usage m = F (Fin 0)"
      using energy by (auto simp: energy_joules_same)
  }
  {
    assume "rapl1 w (now s) = None \<and>
      rapl0 w (window_end w s) = Some c1 \<and> rapl1 w (window_end w s) = Some m1"
    then have "initial = (F (Fin 0), F (Fin 0))" "final = (I (uint c1), I (uint m1))"
      by (simp_all add: initial_def final_def initial_counters_def read_counters_def
          split: option.splits)
    then show "\<exists>m s'. monitor_cpu_memory w s = Inr (m, s') \<and>
         energy_joules (I (uint c1)) (F (Fin 0)) = Inr (cpu_energy_usage m) \<and>
         energy_joules (I (uint m1)) (F (Fin 0)) = Inr (mem_energy_usage m)"
      using energy by simp
  }
qed

lemma fl_7_2: "fl (7 / 2) = Fin (7 / 2)"
  by (rule fl_exact [of _ 7 "- 1"]) (simp_all add: pow2_def)

lemma energy_joules_3500000: "energy_joules (I 3500000) (F (Fin 0)) = Inr (F (Fin (7 / 2)))"
  by (simp add: energy_joules_def fl_7_2)

theorem single_scope_corrupts_cpu_energy_witness:
  "rapl0 world_mem_lost (now init_config) = Some 1000000 \<and>
   rapl0 world_mem_lost (window_end world_mem_lost init_config) = Some 3500000 \<and>
   rapl1 world_mem_lost (window_end world_mem_lost init_config) = None \<and>
   (\<exists>m s'. monitor_cpu_memory world_mem_lost init_config = Inr (m, s') \<and>
      cpu_energy_usage m = F (Fin 0)) \<and>
   rapl0 world_mem_late (now init_config) = Some 1000000 \<and>
   rapl1 world_mem_late (now init_config) = None \<and>
   rapl0 world_mem_late (window_end world_mem_late init_config) = Some 3500000 \<and>
   rapl1 world_mem_late (window_end world_mem_late init_config) = Some 3500000 \<and>
   (\<exists>m s'. monitor_cpu_memory world_mem_late init_config = Inr (m, s') \<and>
      cpu_energy_usage m = F (Fin (7 / 2)))"
proof -
  have lost: "rapl0 world_mem_lost (now init_config) = Some 1000000"
    "rapl0 world_mem_lost (window_end world_mem_lost init_config) = Some 3500000"
    "rapl1 world_mem_lost (window_end world_mem_lost init_config) = None"
    by (simp_all add: window_end_mem_lost) (simp_all add: world_mem_lost_def init_config_def)
  have late: "rapl0 world_mem_late (now init_config) = Some 1000000"
    "rapl1 world_mem_late (now init_config) = None"
    "rapl0 world_mem_late (window_end world_mem_late init_config) = Some 3500000"
    "rapl1 world_mem_late (window_end world_mem_late init_config) = Some 3500000"
    by (simp_all add: window_end_mem_late) (simp_all add: world_mem_late_def init_config_def)
  have 1: "\<exists>m s'. monitor_cpu_memory world_mem_lost init_config = Inr (m, s') \<and>
      cpu_energy_usage m = F (Fin 0)"
    using single_scope_corrupts_cpu_energy [of world_mem_lost init_config] lost(3) by blast
  have 2: "\<exists>m s'. monitor_cpu_memory world_mem_late init_config = Inr (m, s') \<and>
      cpu_energy_usage m = F (Fin (7 / 2))"
    using single_scope_corrupts_cpu_energy [of world_mem_late init_config 3500000 3500000]
      late(2,3,4) energy_joules_3500000 by auto
  from lost late 1 2 show ?thesis by blast
qed

lemma fl_thousandth:
  fixes K :: int
  assumes "\<bar>of_int K :: rat\<bar> \<le> 2 ^ 53"
  obtains y where "fl (of_int K / 1000) = Fin y"
    and "\<bar>y - of_int K / 1000\<bar> \<le> \<bar>of_int K / 1000\<bar> * pow2 (- 53)"
proof (cases "K = 0")
  case True
  then show ?thesis using that [of 0] by simp
next
  case False
  then have "1 \<le> \<bar>K\<bar>" by simp
  then have "(of_int 1 :: rat) \<le> of_int \<bar>K\<bar>" by (simp only: of_int_le_iff)
  then have k1: "1 \<le> \<bar>of_int K :: rat\<bar>" by simp
  have "pow2 (- 1022) \<le> pow2 (- 10)" by (rule pow2_mono) simp
  also have "\<dots> \<le> 1 / 1000" by (simp add: pow2_def)
  also have "\<dots> \<le> \<bar>of_int K / 1000 :: rat\<bar>" using k1 by simp
  finally have lo: "pow2 (- 1022) \<le> \<bar>of_int K / 1000 :: rat\<bar>" .
  have "\<bar>of_int K / 1000 :: rat\<bar> \<le> \<bar>of_int K\<bar>" by simp
  also have "\<dots> \<le> pow2 1023" using assms pow2_huge by linarith
  finally have hi: "\<bar>of_int K / 1000 :: rat\<bar> \<le> pow2 1023" .
  from lo hi show ?thesis by (rule fl_error) (rule that)
qed

lemma energy_joules_accurate:
  fixes a b :: int
  assumes d: "\<bar>a - b\<bar> < 2 ^ 53"
  shows "\<exists>v. energy_joules (I a) (I b) = Inr v \<and> rounded_joules (a - b) v"
proof -
  define d where "d = a - b"
  have dabs: "\<bar>d\<bar> < 2 ^ 53" using assms by (simp add: d_def)
  then have dr: "\<bar>of_int d :: rat\<bar> < 2 ^ 53"
    by (metis of_int_abs of_int_less_numeral_power_cancel_iff)
  have conv: "float_of_int d = Inr (Fin (of_int d))"
    using dabs by (rule float_of_int_exact)
  have ej: "energy_joules (I a) (I b) = Inr (py_round (F (fl (of_int d / 1000000))) 3)"
    by (simp add: energy_joules_def conv flip: d_def)
  obtain x where x: "fl (of_int d / 1000000) = Fin x"
    and xe: "\<bar>x - of_int d / 1000000\<bar> \<le> \<bar>of_int d / 1000000\<bar> * pow2 (- 53)"
  proof (cases "d = 0")
    case True
    then show ?thesis using that [of 0] by simp
  next
    case False
    then have "1 \<le> \<bar>d\<bar>" by simp
    then have "(of_int 1 :: rat) \<le> of_int \<bar>d\<bar>" by (simp only: of_int_le_iff)
    then have "1 / 1000000 \<le> \<bar>of_int d / 1000000 :: rat\<bar>" by simp
    with pow2_tiny have lo: "pow2 (- 1022) \<le> \<bar>of_int d / 1000000 :: rat\<bar>" by linarith
    have "\<bar>of_int d / 1000000 :: rat\<bar> \<le> \<bar>of_int d\<bar>" by simp
    also have "\<dots> \<le> pow2 1023" using dr pow2_huge by linarith
    finally have hi: "\<bar>of_int d / 1000000 :: rat\<bar> \<le> pow2 1023" .
    from lo hi show ?thesis by (rule fl_error) (rule that)
  qed
  define K where "K = rne (x * 1000)"
  have near: "\<bar>of_int K - (of_int d :: rat) / 1000\<bar> \<le> 1 / 2"
    unfolding K_def using dabs xe by (rule round3_of_quotient)
  have "\<bar>of_int K :: rat\<bar> \<le> \<bar>of_int d / 1000\<bar> + 1 / 2"
    using near by linarith
  also have "\<dots> \<le> 2 ^ 53"
  proof -
    have "\<bar>of_int d / 1000 :: rat\<bar> = \<bar>of_int d\<bar> / 1000" by simp
    also have "\<dots> \<le> 2 ^ 53 / 1000" using dr by (intro divide_right_mono) simp_all
    finally show ?thesis by simp
  qed
  finally have "\<bar>of_int K :: rat\<bar> \<le> 2 ^ 53" .
  then obtain y where y: "fl (of_int K / 1000) = Fin y"
    and ye: "\<bar>y - of_int K / 1000\<bar> \<le> \<bar>of_int K / 1000\<bar> * pow2 (- 53)"
    by (rule fl_thousandth)
  have "energy_joules (I a) (I b) = Inr (F (Fin y))"
    by (simp add: ej x y flip: K_def)
  moreover have "rounded_joules (a - b) (F (Fin y))"
    unfolding rounded_joules_def using near y ye by (auto simp: d_def)
  ultimately show ?thesis by blast
qed

lemma rounded_joules_sign:
  assumes "rounded_joules delta v"
  shows "\<exists>y. v = F (Fin y) \<and> (0 \<le> delta \<longrightarrow> 0 \<le> y) \<and> (delta \<le> 0 \<longrightarrow> y \<le> 0) \<and>
     (500 < delta \<longrightarrow> 0 < y) \<and> (delta < - 500 \<longrightarrow> y < 0)"
proof -
  from assms obtain K y where near: "\<bar>of_int K - (of_int delta :: rat) / 1000\<bar> \<le> 1 / 2"
    and ye: "\<bar>y - of_int K / 1000\<bar> \<le> \<bar>of_int K / 1000\<bar> * pow2 (- 53)"
    and v: "v = F (Fin y)"
    by (auto simp: rounded_joules_def)
  have p: "pow2 (- 53) < 1" by (simp add: pow2_def)
  have sgn_pos: "0 < y" if "0 < K"
  proof -
    from that have k: "(0 :: rat) < of_int K / 1000" by simp
    then have "\<bar>of_int K / 1000 :: rat\<bar> * pow2 (- 53) < of_int K / 1000"
      using p by (simp add: abs_of_pos)
    with ye show ?thesis by linarith
  qed
  have sgn_neg: "y < 0" if "K < 0"
  proof -
    from that have k: "(of_int K / 1000 :: rat) < 0" by simp
    then have "\<bar>of_int K / 1000 :: rat\<bar> * pow2 (- 53) < - (of_int K / 1000)"
      using p by (simp add: abs_of_neg)
    with ye show ?thesis by linarith
  qed
  have sgn_zero: "y = 0" if "K = 0"
    using ye that by simp
  have K_nonneg: "0 \<le> K" if "0 \<le> delta"
  proof -
    from that have "(0 :: rat) \<le> of_int delta / 1000" by simp
    with near have "(- 1 :: rat) < of_int K" by linarith
    then have "(of_int (- 1) :: rat) < of_int K" by simp
    then have "- 1 < K" by (simp only: of_int_less_iff)
    then show ?thesis by simp
  qed
  have K_nonpos: "K \<le> 0" if "delta \<le> 0"
  proof -
    from that have "(of_int delta :: rat) / 1000 \<le> 0" by simp
    with near have "(of_int K :: rat) < 1" by linarith
    then have "(of_int K :: rat) < of_int 1" by simp
    then have "K < 1" by (simp only: of_int_less_iff)
    then show ?thesis by simp
  qed
  have K_pos: "0 < K" if "500 < delta"
  proof -
    from that have "(of_int 500 :: rat) < of_int delta" by (simp only: of_int_less_iff)
    then have "(1 / 2 :: rat) < of_int delta / 1000" by simp
    with near have "(0 :: rat) < of_int K" by linarith
    then show ?thesis by simp
  qed
  have K_neg: "K < 0" if "delta < - 500"
  proof -
    from that have "(of_int delta :: rat) < of_int (- 500)" by (simp only: of_int_less_iff)
    then have "(of_int delta :: rat) / 1000 < - (1 / 2)" by simp
    with near have "(of_int K :: rat) < 0" by linarith
    then show ?thesis by simp
  qed
  have "0 \<le> y" if "0 \<le> delta"
    using K_nonneg [OF that] sgn_pos sgn_zero by (cases "K = 0") auto
  moreover have "y \<le> 0" if "delta \<le> 0"
    using K_nonpos [OF that] sgn_neg sgn_zero by (cases "K = 0") auto
  moreover have "0 < y" if "500 < delta" using K_pos [OF that] by (rule sgn_pos)
  moreover have "y < 0" if "delta < - 500" using K_neg [OF that] by (rule sgn_neg)
  ultimately show ?thesis using v by blast
qed


lemma fl_neg_numeral [simp]:
  "(numeral k :: int) < 2 ^ 53 \<Longrightarrow> fl (- numeral k) = Fin (- numeral k)"
  using fl_of_int [of "- numeral k"] by simp

lemma float_of_int_neg_numeral [simp]:
  "(numeral k :: int) < 2 ^ 53 \<Longrightarrow> float_of_int (- numeral k) = Inr (Fin (- numeral k))"
  using float_of_int_exact [of "- numeral k"] by simp

lemma fl_one [simp]: "fl 1 = Fin 1"
  using fl_of_int [of 1] by simp

lemma float_of_int_one [simp]: "float_of_int 1 = Inr (Fin 1)"
  using float_of_int_exact [of 1] by simp

lemma rne_neg_numeral [simp]: "rne (- numeral a) = - numeral a"
  using rne_of_int [of "- numeral a"] by simp


lemma fl_neg_5_2: "fl (- (5 / 2)) = Fin (- (5 / 2))"
  by (rule fl_exact [of _ "- 5" "- 1"]) (simp_all add: pow2_def)

lemmas eval_monitor =
  monitor_cpu_memory_def initial_counters_def final_counters_def read_counters_def
  reduce_cpu_memory_def energy_joules_def average_def py_sum_def py_len_def
  no_samples_def running_def get_cpu_power_def get_memory_power_def
  get_power_def sleep_def Let_def warn_once_def print_def init_config_def



lemma monitor_cpu_memory_both_present:
  assumes "rapl0 w (now s) = Some c0" and "rapl1 w (now s) = Some m0"
    and "rapl0 w (window_end w s) = Some c1" and "rapl1 w (window_end w s) = Some m1"
  shows "\<exists>m s'. monitor_cpu_memory w s = Inr (m, s') \<and>
     energy_joules (I (uint c1)) (I (uint c0)) = Inr (cpu_energy_usage m) \<and>
     energy_joules (I (uint m1)) (I (uint m0)) = Inr (mem_energy_usage m)"
proof -
  have "fst (initial_counters w s) = (I (uint c0), I (uint m0))"
    using assms(1,2) by (simp add: initial_counters_def read_counters_def)
  moreover have "read_counters w (s\<lparr>now := window_end w s\<rparr>) = Some (I (uint c1), I (uint m1))"
    using assms(3,4) by (simp add: read_counters_def)
  ultimately show ?thesis
    using monitor_cpu_memory_energy [of w s] by simp
qed



text \<open>
  Claim C3, as the code has it. A negative delta is not recognised: when the final reading of
  a domain is below the initial one (and both files are present), the energy metric of the
  domain is \<^verbatim>\<open>round((end - start) / 1e6, 3)\<close> as for any other pair, a value that is never
  positive and is negative as soon as the counter fell by more than 500 microjoules. No
  error is raised, and the domain is not treated as unavailable.
\<close>

theorem negative_delta_is_reported:
  assumes "rapl0 w (now s) = Some c0" and "rapl1 w (now s) = Some m0"
    and "rapl0 w (window_end w s) = Some c1" and "rapl1 w (window_end w s) = Some m1"
  shows "\<exists>m s'. monitor_cpu_memory w s = Inr (m, s') \<and>
     (uint c1 < uint c0 \<and> uint c0 - uint c1 < 2 ^ 53 \<longrightarrow>
        rounded_joules (uint c1 - uint c0) (cpu_energy_usage m) \<and>
        (\<exists>y. cpu_energy_usage m = F (Fin y) \<and> y \<le> 0 \<and> (500 < uint c0 - uint c1 \<longrightarrow> y < 0))) \<and>
     (uint m1 < uint m0 \<and> uint m0 - uint m1 < 2 ^ 53 \<longrightarrow>
        rounded_joules (uint m1 - uint m0) (mem_energy_usage m) \<and>
        (\<exists>y. mem_energy_usage m = F (Fin y) \<and> y \<le> 0 \<and> (500 < uint m0 - uint m1 \<longrightarrow> y < 0)))"
proof -
  obtain m s' where mon: "monitor_cpu_memory w s = Inr (m, s')"
    and ec: "energy_joules (I (uint c1)) (I (uint c0)) = Inr (cpu_energy_usage m)"
    and em: "energy_joules (I (uint m1)) (I (uint m0)) = Inr (mem_energy_usage m)"
    using monitor_cpu_memory_both_present [OF assms] by blast
  have acc: "rounded_joules (b - a) v \<and>
      (\<exists>y. v = F (Fin y) \<and> y \<le> 0 \<and> (500 < a - b \<longrightarrow> y < 0))"
    if "energy_joules (I b) (I a) = Inr v" "b < a" "a - b < 2 ^ 53" for a b :: int and v
  proof -
    from that(2,3) have "\<bar>b - a\<bar> < 2 ^ 53" by simp
    then obtain v' where "energy_joules (I b) (I a) = Inr v'" "rounded_joules (b - a) v'"
      using energy_joules_accurate by blast
    with that(1) have r: "rounded_joules (b - a) v" by simp
    with that(2) show ?thesis
      using rounded_joules_sign [of "b - a" v] by auto
  qed
  from mon acc [OF ec] acc [OF em] show ?thesis by blast
qed

theorem negative_delta_is_reported_witness:
  "rapl0 world_counter_wrap (now init_config) = Some 3500000 \<and>
   rapl1 world_counter_wrap (now init_config) = Some 3500000 \<and>
   rapl0 world_counter_wrap (window_end world_counter_wrap init_config) = Some 1000000 \<and>
   rapl1 world_counter_wrap (window_end world_counter_wrap init_config) = Some 1000000 \<and>
   uint (1000000 :: 64 word) < uint (3500000 :: 64 word) \<and>
   uint (3500000 :: 64 word) - uint (1000000 :: 64 word) < 2 ^ 53 \<and>
   500 < uint (3500000 :: 64 word) - uint (1000000 :: 64 word) \<and>
   (\<exists>m s' y. monitor_cpu_memory world_counter_wrap init_config = Inr (m, s') \<and>
      cpu_energy_usage m = F (Fin y) \<and> y < 0 \<and>
      rounded_joules (- 2500000) (cpu_energy_usage m))"
proof -
  have we: "window_end world_counter_wrap init_config = 3000"
    by (simp add: window_end_def eval_monitor world_counter_wrap_def)
  have r: "rapl0 world_counter_wrap (now init_config) = Some 3500000"
    "rapl1 world_counter_wrap (now init_config) = Some 3500000"
    "rapl0 world_counter_wrap (window_end world_counter_wrap init_config) = Some 1000000"
    "rapl1 world_counter_wrap (window_end world_counter_wrap init_config) = Some 1000000"
    by (simp_all add: we) (simp_all add: world_counter_wrap_def init_config_def)
  have u: "uint (1000000 :: 64 word) < uint (3500000 :: 64 word)"
    "uint (3500000 :: 64 word) - uint (1000000 :: 64 word) < 2 ^ 53"
    "500 < uint (3500000 :: 64 word) - uint (1000000 :: 64 word)"
    "uint (1000000 :: 64 word) - uint (3500000 :: 64 word) = - 2500000"
    by simp_all
  have "\<exists>m s' y. monitor_cpu_memory world_counter_wrap init_config = Inr (m, s') \<and>
      cpu_energy_usage m = F (Fin y) \<and> y < 0 \<and>
      rounded_joules (- 2500000) (cpu_energy_usage m)"
    using negative_delta_is_reported [OF r] by fastforce
  with r u(1,2,3) show ?thesis by blast
qed

text \<open>
  Claim C3 as stated fails: with both counters falling from 3,500,000 to 1,000,000 microjoules
  the aggregator reports \<open>-2.5\<close> joules for both domains, and prints no warning.
\<close>

theorem negative_delta_counterexample:
  "monitor_cpu_memory world_counter_wrap init_config =
     Inr (\<lparr>avg_cpu = F (Fin 50), avg_mem = F (Fin 25),
           avg_cpu_power = F (Fin 0), avg_mem_power = F (Fin 0),
           cpu_energy_usage = F (Fin (- (5 / 2))), mem_energy_usage = F (Fin (- (5 / 2)))\<rparr>,
          \<lparr>now = 3000, rapl_error_printed = False, stdout = []\<rparr>)"
  by (simp add: eval_monitor world_counter_wrap_def fl_neg_5_2)

section \<open>Empty series\<close>

text \<open>
  Claim C6. In \<^verbatim>\<open>llama_power\<close> an empty series reduces to its default, \<open>0\<close> or \<open>0.0\<close>, and
  when the workload has exited before the first sample the nine metrics of a run are zero,
  with no exception. In \<^verbatim>\<open>powerjoular_test\<close> a column that is missing gives \<open>0\<close>; a column
  that is present and has no row gives \<open>0\<close> for its sum, and NaN for its mean.
\<close>

theorem empty_series_reduction:
  "average [] (I 0) = Inr (I 0) \<and> average [] (F (Fin 0)) = Inr (F (Fin 0)) \<and>
   reduce_gpu [] [] =
     Inr \<lparr>avg_gpu_power = I 0, avg_gpu_utilization = I 0, gpu_energy_usage = F (Fin 0)\<rparr> \<and>
   monitor_usage world_exited init_config =
     Inr ((\<lparr>avg_cpu = I 0, avg_mem = I 0, avg_cpu_power = F (Fin 0), avg_mem_power = F (Fin 0),
            cpu_energy_usage = F (Fin 0), mem_energy_usage = F (Fin 0)\<rparr>,
           \<lparr>avg_gpu_power = I 0, avg_gpu_utilization = I 0, gpu_energy_usage = F (Fin 0)\<rparr>),
          init_config) \<and>
   column_metric [] ''CPU Power'' series_mean = I 0 \<and>
   run_data_of df_header_only =
     [(''avg_cpu_utilization'', F NaN), (''avg_cpu_power'', F NaN), (''total_cpu_energy'', I 0),
      (''avg_gpu_utilization'', I 0), (''avg_gpu_power'', F NaN), (''total_gpu_energy'', I 0)]"
proof -
  have "monitor_cpu_memory world_exited init_config =
     Inr (\<lparr>avg_cpu = I 0, avg_mem = I 0, avg_cpu_power = F (Fin 0), avg_mem_power = F (Fin 0),
            cpu_energy_usage = F (Fin 0), mem_energy_usage = F (Fin 0)\<rparr>, init_config)"
    by (simp add: eval_monitor world_exited_def)
  moreover have "monitor_gpu world_exited init_config =
     Inr (\<lparr>avg_gpu_power = I 0, avg_gpu_utilization = I 0, gpu_energy_usage = F (Fin 0)\<rparr>,
          init_config)"
    by (simp add: monitor_gpu_def reduce_gpu_empty running_def world_exited_def init_config_def)
  ultimately have "monitor_usage world_exited init_config =
     Inr ((\<lparr>avg_cpu = I 0, avg_mem = I 0, avg_cpu_power = F (Fin 0), avg_mem_power = F (Fin 0),
            cpu_energy_usage = F (Fin 0), mem_energy_usage = F (Fin 0)\<rparr>,
           \<lparr>avg_gpu_power = I 0, avg_gpu_utilization = I 0, gpu_energy_usage = F (Fin 0)\<rparr>),
          init_config)"
    by (simp add: monitor_usage_def)
  moreover have "run_data_of df_header_only =
     [(''avg_cpu_utilization'', F NaN), (''avg_cpu_power'', F NaN), (''total_cpu_energy'', I 0),
      (''avg_gpu_utilization'', I 0), (''avg_gpu_power'', F NaN), (''total_gpu_energy'', I 0)]"
    by (simp add: run_data_of_def column_metric_def df_header_only_def series_mean_def
        series_sum_def)
  ultimately show ?thesis
    by (simp add: average_def reduce_gpu_empty column_metric_def)
qed

section \<open>The energy metric of the GPU\<close>











lemma fl_1_4: "fl (1 / 4) = Fin (1 / 4)"
  by (rule fl_exact [of _ 1 "- 2"]) (simp_all add: pow2_def)

lemma two_polls_loop:
  "monitor_gpu_loop world_two_polls (now init_config) init_config ([], []) =
     Inr (Collected [F (Fin 100), F (Fin 150)] [F (Fin 30), F (Fin 40)],
          \<lparr>now = 2, rapl_error_printed = False, stdout = []\<rparr>)"
  by (simp add: world_two_polls_def init_config_def running_def sleep_def Let_def
      strip_def is_space_def)

lemma two_polls_run:
  "monitor_gpu world_two_polls init_config =
     Inr (\<lparr>avg_gpu_power = F (Fin 125), avg_gpu_utilization = F (Fin 35),
           gpu_energy_usage = F (Fin (1 / 4))\<rparr>,
          \<lparr>now = 2, rapl_error_printed = False, stdout = []\<rparr>)"
  using two_polls_loop
  by (simp add: monitor_gpu_def reduce_gpu_def mean_or_zero_def py_sum_def py_len_def fl_1_4
      del: monitor_gpu_loop.simps)


section \<open>The end of the sampling loops\<close>

lemma cpu_memory_loop_end:
  assumes "cpu_memory_loop w start_time s xs = Inr (xs', s')"
  shows "(\<not> (running w s \<and> now s - start_time < 10000) \<longrightarrow> s' = s) \<and>
     (running w s \<and> now s - start_time < 10000 \<longrightarrow>
        now s + 1000 \<le> now s' \<and> now s' - start_time < 13000 \<and>
        (\<forall>te. exit_at w = Some te \<longrightarrow> now s' < te + 3000))"
  using assms
proof (induction w start_time s xs rule: cpu_memory_loop.induct)
  case (1 w start_time s xs)
  show ?case
  proof (cases "running w s \<and> now s - start_time < 10000")
    case False
    have "cpu_memory_loop w start_time s xs = Inr (xs, s)"
      by (subst cpu_memory_loop.simps) (simp only: False if_False)
    with "1.prems" False show ?thesis by simp
  next
    case True
    define s1 where "s1 = sleep 1000 s"
    define xs1 where "xs1 = xs\<lparr>cpu_usage := cpu_usage xs @ [F (cpu_percent w (now s1))],
                      memory_usage := memory_usage xs @ [F (mem_percent w (now s1))]\<rparr>"
    obtain cpu_power s2 where cpu: "get_cpu_power w s1 = Inr (F cpu_power, s2)"
      and t2: "now s1 \<le> now s2" "now s2 \<le> now s1 + 1000"
      using get_power_total [of "rapl0 w" CpuPowerUnavailable s1]
      by (auto simp: get_cpu_power_def)
    obtain mem_power s3 where mem: "get_memory_power w s2 = Inr (F mem_power, s3)"
      and t3: "now s2 \<le> now s3" "now s3 \<le> now s2 + 1000"
      using get_power_total [of "rapl1 w" MemPowerUnavailable s2]
      by (auto simp: get_memory_power_def)
    define xs3 where "xs3 = xs1\<lparr>cpu_power_usage := cpu_power_usage xs1 @ [F cpu_power],
                            mem_power_usage := mem_power_usage xs1 @ [F mem_power]\<rparr>"
    have step: "cpu_memory_loop w start_time s xs = cpu_memory_loop w start_time s3 xs3"
      using True cpu mem
      by (subst cpu_memory_loop.simps) (simp add: Let_def s1_def xs1_def xs3_def)
    have t: "now s + 1000 \<le> now s3" "now s3 \<le> now s + 3000"
      using t2 t3 by (simp_all add: s1_def)
    from "1.prems" step have rest: "cpu_memory_loop w start_time s3 xs3 = Inr (xs', s')"
      by simp
    note ih = "1.IH" [OF True s1_def xs1_def cpu refl mem refl rest [unfolded xs3_def]]
    have run: "now s < te" if "exit_at w = Some te" for te
      using True that by (simp add: running_def)
    show ?thesis
    proof (cases "running w s3 \<and> now s3 - start_time < 10000")
      case False
      with ih have "s' = s3" by simp
      with True t run show ?thesis by fastforce
    next
      case again: True
      with ih have "now s3 + 1000 \<le> now s'" "now s' - start_time < 13000"
        "\<forall>te. exit_at w = Some te \<longrightarrow> now s' < te + 3000"
        by simp_all
      with True t show ?thesis by simp
    qed
  qed
qed

lemma interact_loop_end:
  "(\<not> target_running w r \<longrightarrow> interact_loop w start_time r = r) \<and>
   (target_running w r \<and> clock r - start_time \<le> 20000 \<longrightarrow>
      clock r + 1000 \<le> clock (interact_loop w start_time r) \<and>
      clock (interact_loop w start_time r) - start_time \<le> 21000 \<and>
      (\<forall>te. exit_at w = Some te \<longrightarrow> clock (interact_loop w start_time r) < te + 1000) \<and>
      (\<not> target_running w (interact_loop w start_time r) \<or>
       20000 < clock (interact_loop w start_time r) - start_time \<and>
       target_terminated (interact_loop w start_time r)))"
proof (induction w start_time r rule: interact_loop.induct)
  case (1 w start_time r)
  show ?case
  proof (cases "target_running w r")
    case False
    have "interact_loop w start_time r = r"
      by (subst interact_loop.simps) (simp only: False if_False)
    with False show ?thesis by simp
  next
    case True
    define r1 where "r1 = r\<lparr>clock := clock r + 1000\<rparr>"
    define r2 where "r2 = console_log (CurrentCpuUsage (cpu_percent w (clock r1))) r1"
    have c2: "clock r2 = clock r + 1000"
      by (simp add: r2_def r1_def console_log_def)
    have run: "clock r < te" if "exit_at w = Some te" for te
      using True that by (simp add: target_running_def)
    show ?thesis
    proof (cases "clock r2 - start_time > 20000")
      case over: True
      have "interact_loop w start_time r =
          console_log TerminatedTarget (r2\<lparr>target_terminated := True\<rparr>)"
        using True over
        by (subst interact_loop.simps) (simp add: Let_def r1_def r2_def)
      then have "clock (interact_loop w start_time r) = clock r + 1000"
        "target_terminated (interact_loop w start_time r)"
        by (simp_all add: console_log_def c2)
      with True over c2 run show ?thesis by fastforce
    next
      case under: False
      have step: "interact_loop w start_time r = interact_loop w start_time r2"
        using True under
        by (subst interact_loop.simps) (simp add: Let_def r1_def r2_def)
      note ih = "1.IH" [OF True r1_def r2_def under]
      show ?thesis
      proof (cases "target_running w r2")
        case False
        with ih have "interact_loop w start_time r2 = r2" by simp
        with step True under c2 run False show ?thesis by fastforce
      next
        case again: True
        with ih under have "clock r2 + 1000 \<le> clock (interact_loop w start_time r2)"
          "clock (interact_loop w start_time r2) - start_time \<le> 21000"
          "\<forall>te. exit_at w = Some te \<longrightarrow> clock (interact_loop w start_time r2) < te + 1000"
          "\<not> target_running w (interact_loop w start_time r2) \<or>
             20000 < clock (interact_loop w start_time r2) - start_time \<and>
             target_terminated (interact_loop w start_time r2)"
          by simp_all
        with step True c2 show ?thesis by simp
      qed
    qed
  qed
qed


text \<open>
  Claim C5. The clock counts milliseconds and advances by the blocking calls of a round: one
  second for the CPU sample, and one second for each counter reader that finds its file.
  The loop of \<^verbatim>\<open>monitor_cpu_memory\<close> returns, and it ends at the first check of its condition at
  which the workload has exited or ten seconds have elapsed: less than one round (three
  seconds) after the exit of the workload, at once when the workload had exited before, not
  before the exit when that falls within the budget, and never later than thirteen seconds.
  The loop of \<^verbatim>\<open>interact\<close> ends when the target has exited, or with the target terminated
  once more than twenty seconds have elapsed: less than one round (one second) after the
  exit, and never later than twenty-one seconds.
\<close>

theorem sampling_loops_stop_on_exit_or_budget:
  "(\<exists>xs' s'. cpu_memory_loop w (now s) s no_samples = Inr (xs', s') \<and>
      \<not> (running w s' \<and> now s' - now s < 10000) \<and>
      now s \<le> now s' \<and> now s' - now s < 13000 \<and>
      (\<forall>te. exit_at w = Some te \<and> te \<le> now s \<longrightarrow> s' = s) \<and>
      (\<forall>te. exit_at w = Some te \<and> now s < te \<longrightarrow> now s' < te + 3000) \<and>
      (\<forall>te. exit_at w = Some te \<and> now s < te \<and> te \<le> now s + 10000 \<longrightarrow> te \<le> now s')) \<and>
   (\<not> target_running w (interact_loop w (clock r) r) \<or>
      20000 < clock (interact_loop w (clock r) r) - clock r \<and>
      target_terminated (interact_loop w (clock r) r)) \<and>
   clock r \<le> clock (interact_loop w (clock r) r) \<and>
   clock (interact_loop w (clock r) r) - clock r \<le> 21000 \<and>
   (\<forall>te. exit_at w = Some te \<and> te \<le> clock r \<longrightarrow> interact_loop w (clock r) r = r) \<and>
   (\<forall>te. exit_at w = Some te \<and> clock r < te \<longrightarrow>
      clock (interact_loop w (clock r) r) < te + 1000) \<and>
   (\<forall>te. exit_at w = Some te \<and> clock r < te \<and> te \<le> clock r + 20000 \<longrightarrow>
      te \<le> clock (interact_loop w (clock r) r))"
proof -
  obtain xs' s' where loop: "cpu_memory_loop w (now s) s no_samples = Inr (xs', s')"
    and mono: "now s \<le> now s'"
    and stop: "\<not> (running w s' \<and> now s' - now s < 10000)"
    using cpu_memory_loop_total [OF series_ok_start [of s], where w = w] by blast
  note e = cpu_memory_loop_end [OF loop]
  have a1: "now s' - now s < 13000"
    using e by (cases "running w s \<and> now s - now s < 10000") auto
  have a2: "s' = s" if "exit_at w = Some te \<and> te \<le> now s" for te
    using e that by (auto simp: running_def)
  have a3: "now s' < te + 3000" if "exit_at w = Some te \<and> now s < te" for te
    using e that by (auto simp: running_def)
  have a4: "te \<le> now s'" if "exit_at w = Some te \<and> now s < te \<and> te \<le> now s + 10000" for te
    using stop that by (auto simp: running_def)
  have first: "\<exists>xs' s'. cpu_memory_loop w (now s) s no_samples = Inr (xs', s') \<and>
      \<not> (running w s' \<and> now s' - now s < 10000) \<and>
      now s \<le> now s' \<and> now s' - now s < 13000 \<and>
      (\<forall>te. exit_at w = Some te \<and> te \<le> now s \<longrightarrow> s' = s) \<and>
      (\<forall>te. exit_at w = Some te \<and> now s < te \<longrightarrow> now s' < te + 3000) \<and>
      (\<forall>te. exit_at w = Some te \<and> now s < te \<and> te \<le> now s + 10000 \<longrightarrow> te \<le> now s')"
    using loop stop mono a1 a2 a3 a4 by blast
  let ?r = "interact_loop w (clock r) r"
  note i = interact_loop_end [of w r "clock r"]
  have b1: "\<not> target_running w ?r \<or> 20000 < clock ?r - clock r \<and> target_terminated ?r"
    using i by (cases "target_running w r") auto
  have b2: "clock r \<le> clock ?r" "clock ?r - clock r \<le> 21000"
    using i by (cases "target_running w r"; auto)+
  have b3: "?r = r" if "exit_at w = Some te \<and> te \<le> clock r" for te
    using i that by (auto simp: target_running_def)
  have b4: "clock ?r < te + 1000" if "exit_at w = Some te \<and> clock r < te" for te
    using i that by (auto simp: target_running_def)
  have b5: "te \<le> clock ?r" if "exit_at w = Some te \<and> clock r < te \<and> te \<le> clock r + 20000" for te
    using b1 that by (auto simp: target_running_def)
  from first b1 b2 b3 b4 b5 show ?thesis by blast
qed

theorem sampling_loops_stop_on_exit_or_budget_witness:
  "exit_at world_scenario = Some 3000 \<and> now init_config < 3000 \<and> 3000 \<le> now init_config + 10000 \<and>
   clock init_runner < 3000 \<and> 3000 \<le> clock init_runner + 20000 \<and>
   (\<exists>xs' s'. cpu_memory_loop world_scenario (now init_config) init_config no_samples = Inr (xs', s') \<and>
      3000 \<le> now s' \<and> now s' < 6000) \<and>
   3000 \<le> clock (interact_loop world_scenario (clock init_runner) init_runner) \<and>
   clock (interact_loop world_scenario (clock init_runner) init_runner) < 4000 \<and>
   exit_at world_exited = Some 0 \<and> 0 \<le> now init_config \<and> 0 \<le> clock init_runner \<and>
   (\<exists>xs'. cpu_memory_loop world_exited (now init_config) init_config no_samples
      = Inr (xs', init_config)) \<and>
   interact_loop world_exited (clock init_runner) init_runner = init_runner"
proof -
  have h: "exit_at world_scenario = Some 3000" "now init_config < 3000"
    "3000 \<le> now init_config + 10000" "clock init_runner < 3000"
    "3000 \<le> clock init_runner + 20000"
    by (simp_all add: world_scenario_def init_config_def init_runner_def)
  note t = sampling_loops_stop_on_exit_or_budget [of world_scenario init_config init_runner]
  have 1: "\<exists>xs' s'. cpu_memory_loop world_scenario (now init_config) init_config no_samples
       = Inr (xs', s') \<and> 3000 \<le> now s' \<and> now s' < 6000"
    using t h(1,2,3) by fastforce
  have 2: "3000 \<le> clock (interact_loop world_scenario (clock init_runner) init_runner)"
    "clock (interact_loop world_scenario (clock init_runner) init_runner) < 4000"
    using t h(1,4,5) by fastforce+
  have g: "exit_at world_exited = Some 0" "0 \<le> now init_config" "0 \<le> clock init_runner"
    by (simp_all add: world_exited_def init_config_def init_runner_def)
  note u = sampling_loops_stop_on_exit_or_budget [of world_exited init_config init_runner]
  have 3: "\<exists>xs'. cpu_memory_loop world_exited (now init_config) init_config no_samples
      = Inr (xs', init_config)"
    using u g(1,2) by fastforce
  have 4: "interact_loop world_exited (clock init_runner) init_runner = init_runner"
    using u g(1,3) by fastforce
  from h 1 2 g 3 4 show ?thesis by blast
qed

end
